theory Spec2Isabelle
  imports Main
begin

section \<open>JavaScript values used by \<^verbatim>\<open>scripts/generate-html.ts\<close>\<close>

text \<open>
  Every column of a CSV row is a string or absent (\<^verbatim>\<open>undefined\<close>); an optional
  field is a \<open>string option\<close>. Strings are sequences of code units, here restricted to
  the ASCII range: case mapping and white space are the ASCII ones.
\<close>

definition truthy :: "string option \<Rightarrow> bool" where
  "truthy v = (case v of None \<Rightarrow> False | Some s \<Rightarrow> s \<noteq> [])"

definition falsy :: "string option \<Rightarrow> bool" where
  "falsy v = (case v of None \<Rightarrow> True | Some s \<Rightarrow> s = [])"

text \<open>\<^verbatim>\<open>s.split(d)\<close> for a one-character separator: never an empty array.\<close>

fun split :: "char \<Rightarrow> string \<Rightarrow> string list" where
  "split d [] = [[]]"
| "split d (c # cs) =
     (if c = d then [] # split d cs
      else (case split d cs of [] \<Rightarrow> [[c]] | p # ps \<Rightarrow> (c # p) # ps))"

definition isSpace :: "char \<Rightarrow> bool" where
  "isSpace c = (c \<in> set [CHR 0x09, CHR 0x0A, CHR 0x0B, CHR 0x0C, CHR 0x0D, CHR '' ''])"

definition trim :: "string \<Rightarrow> string" where
  "trim s = rev (dropWhile isSpace (rev (dropWhile isSpace s)))"

definition toLowerCase :: "string \<Rightarrow> string" where
  "toLowerCase s =
     map (\<lambda>c. case map_of (zip ''ABCDEFGHIJKLMNOPQRSTUVWXYZ'' ''abcdefghijklmnopqrstuvwxyz'') c of
                 None \<Rightarrow> c | Some l \<Rightarrow> l) s"

definition toUpperCase :: "string \<Rightarrow> string" where
  "toUpperCase s =
     map (\<lambda>c. case map_of (zip ''abcdefghijklmnopqrstuvwxyz'' ''ABCDEFGHIJKLMNOPQRSTUVWXYZ'') c of
                 None \<Rightarrow> c | Some u \<Rightarrow> u) s"

text \<open>\<^verbatim>\<open>x || 0\<close> on a counter that is absent until its first increment.\<close>

definition orZero :: "nat option \<Rightarrow> nat" where
  "orZero v = (case v of None \<Rightarrow> 0 | Some n \<Rightarrow> n)"

section \<open>The four record kinds\<close>

record BeautySalon =
  bs_id :: string
  bs_title :: string
  bs_website :: "string option"
  bs_telephone :: "string option"
  bs_address :: "string option"
  bs_postal_code :: "string option"
  bs_latitude :: "string option"
  bs_longitude :: "string option"
  bs_email :: "string option"
  bs_opening_hours :: "string option"
  bs_description :: "string option"
  bs_service_product :: "string option"
  bs_reviews :: "string option"
  bs_average_star :: "string option"
  bs_city_id :: "string option"
  bs_city_name :: "string option"
  bs_state_id :: "string option"
  bs_state_name :: "string option"
  bs_category_ids :: "string option"
  bs_detail_keys :: "string option"
  bs_detail_values :: "string option"
  bs_amenity_ids :: "string option"
  bs_payment_ids :: "string option"
  bs_images :: "string option"

record City =
  ci_id :: string
  ci_city :: string
  ci_state_id :: string
  ci_state_name :: "string option"
  ci_salon_count :: "nat option"

record State =
  st_id :: string
  st_state :: string
  st_city_count :: "nat option"
  st_salon_count :: "nat option"

record Category =
  ca_id :: string
  ca_category :: string
  ca_salon_count :: "nat option"

section \<open>\<^verbatim>\<open>Map\<close>: insertion-ordered, values are object references\<close>

text \<open>
  \<^verbatim>\<open>new Map(cities.map(city => [city.id, city]))\<close> holds references to the objects of
  the array, so a later write to \<^verbatim>\<open>city.salon_count\<close> is seen through the map. A
  reference is the index of the object in its array. A key set twice keeps its first
  position and takes the last value.
\<close>

type_synonym jsMap = "(string \<times> nat) list"

fun mapSet :: "jsMap \<Rightarrow> string \<Rightarrow> nat \<Rightarrow> jsMap" where
  "mapSet [] k v = [(k, v)]"
| "mapSet ((k', v') # m) k v = (if k' = k then (k', v) # m else (k', v') # mapSet m k v)"

definition newMap :: "string list \<Rightarrow> jsMap" where
  "newMap ids = foldl (\<lambda>m (k, v). mapSet m k v) [] (zip ids [0..<length ids])"

text \<open>\<^verbatim>\<open>map.get(k)\<close> followed by the read of the object it refers to.\<close>

definition mapGet :: "jsMap \<Rightarrow> 'a list \<Rightarrow> string \<Rightarrow> 'a option" where
  "mapGet m arr k =
     (case map_of m k of None \<Rightarrow> None
      | Some i \<Rightarrow> if i < length arr then Some (arr ! i) else None)"

text \<open>\<^verbatim>\<open>map.entries()\<close>, in insertion order, each reference read.\<close>

definition mapEntries :: "jsMap \<Rightarrow> 'a list \<Rightarrow> (string \<times> 'a) list" where
  "mapEntries m arr = map (\<lambda>(k, i). (k, arr ! i)) (filter (\<lambda>(k, i). i < length arr) m)"

text \<open>
  The guard \<^verbatim>\<open>key && map.has(key)\<close> with the \<^verbatim>\<open>map.get(key)!\<close> of its branch:
  the object when the key is a non-empty string that the map holds.
\<close>

definition lookupTruthy :: "jsMap \<Rightarrow> 'a list \<Rightarrow> string option \<Rightarrow> 'a option" where
  "lookupTruthy m arr key =
     (case key of None \<Rightarrow> None | Some k \<Rightarrow> if k = [] then None else mapGet m arr k)"

section \<open>Resolution: lines 285--349 of \<^verbatim>\<open>generateHTML\<close>\<close>

text \<open>Add state names to cities.\<close>

definition addStateName :: "jsMap \<Rightarrow> State list \<Rightarrow> City \<Rightarrow> City" where
  "addStateName statesMap states city =
     (case lookupTruthy statesMap states (Some (ci_state_id city)) of
        None \<Rightarrow> city
      | Some state \<Rightarrow> city\<lparr>ci_state_name := Some (st_state state)\<rparr>)"

text \<open>First try to assign city and state based on \<^verbatim>\<open>city_id\<close>.\<close>

definition assignByCityId ::
  "jsMap \<Rightarrow> City list \<Rightarrow> jsMap \<Rightarrow> State list \<Rightarrow> BeautySalon \<Rightarrow> BeautySalon" where
  "assignByCityId citiesMap cities statesMap states salon =
     (case lookupTruthy citiesMap cities (bs_city_id salon) of
        None \<Rightarrow> salon
      | Some city \<Rightarrow>
          let salon1 = salon\<lparr>bs_city_name := Some (ci_city city)\<rparr> in
          (case lookupTruthy statesMap states (Some (ci_state_id city)) of
             None \<Rightarrow> salon1
           | Some state \<Rightarrow>
               salon1\<lparr>bs_state_id := Some (ci_state_id city),
                      bs_state_name := Some (st_state state)\<rparr>))"

text \<open>
  \<^verbatim>\<open>addressParts[addressParts.length - 2].split(' ').pop()\<close>, kept when it is exactly
  two characters long.
\<close>

definition addressParts :: "string \<Rightarrow> string list" where
  "addressParts address = map trim (split CHR '','' address)"

definition stateAbbreviation :: "string list \<Rightarrow> string option" where
  "stateAbbreviation parts =
     (if length parts \<ge> 2 then
        (let abbr = last (split CHR '' '' (parts ! (length parts - 2))) in
         if length abbr = 2 then Some abbr else None)
      else None)"

text \<open>The loop over \<^verbatim>\<open>statesMap.entries()\<close> that stops at the first prefix match.\<close>

definition findStateByAbbreviation :: "(string \<times> State) list \<Rightarrow> string \<Rightarrow> (string \<times> State) option" where
  "findStateByAbbreviation entries abbr =
     find (\<lambda>(key, state). toUpperCase (take 2 (st_state state)) = toUpperCase abbr) entries"

text \<open>If we still do not have state, try to infer from address.\<close>

definition inferStateFromAddress :: "jsMap \<Rightarrow> State list \<Rightarrow> BeautySalon \<Rightarrow> BeautySalon" where
  "inferStateFromAddress statesMap states salon =
     (case bs_address salon of
        None \<Rightarrow> salon
      | Some address \<Rightarrow>
          if address \<noteq> [] \<and> (falsy (bs_state_id salon) \<or> falsy (bs_state_name salon)) then
            (case stateAbbreviation (addressParts address) of
               None \<Rightarrow> salon
             | Some abbr \<Rightarrow>
                 (case findStateByAbbreviation (mapEntries statesMap states) abbr of
                    None \<Rightarrow> salon
                  | Some (key, state) \<Rightarrow>
                      salon\<lparr>bs_state_id := Some key, bs_state_name := Some (st_state state)\<rparr>))
          else salon)"

text \<open>The loop over \<^verbatim>\<open>citiesMap.entries()\<close> that stops at the first name match.\<close>

definition findCityByName :: "(string \<times> City) list \<Rightarrow> string \<Rightarrow> (string \<times> City) option" where
  "findCityByName entries possibleCity =
     find (\<lambda>(key, city). toLowerCase (ci_city city) = toLowerCase possibleCity) entries"

text \<open>If we still do not have city and it is in the address, try to extract it.\<close>

definition extractCityFromAddress ::
  "jsMap \<Rightarrow> City list \<Rightarrow> jsMap \<Rightarrow> State list \<Rightarrow> BeautySalon \<Rightarrow> BeautySalon" where
  "extractCityFromAddress citiesMap cities statesMap states salon =
     (case bs_address salon of
        None \<Rightarrow> salon
      | Some address \<Rightarrow>
          if address \<noteq> [] \<and> falsy (bs_city_name salon) then
            (let parts = addressParts address in
             if length parts \<ge> 3 then
               (case findCityByName (mapEntries citiesMap cities) (parts ! (length parts - 3)) of
                  None \<Rightarrow> salon
                | Some (key, city) \<Rightarrow>
                    let salon1 = salon\<lparr>bs_city_id := Some key, bs_city_name := Some (ci_city city)\<rparr> in
                    if ci_state_id city \<noteq> [] \<and> falsy (bs_state_id salon1) then
                      (let salon2 = salon1\<lparr>bs_state_id := Some (ci_state_id city)\<rparr> in
                       case mapGet statesMap states (ci_state_id city) of
                         None \<Rightarrow> salon2
                       | Some state \<Rightarrow> salon2\<lparr>bs_state_name := Some (st_state state)\<rparr>)
                    else salon1)
             else salon)
          else salon)"

text \<open>The body of \<^verbatim>\<open>beautySalons.forEach(salon => ...)\<close> at line 292.\<close>

definition resolveSalon ::
  "jsMap \<Rightarrow> City list \<Rightarrow> jsMap \<Rightarrow> State list \<Rightarrow> BeautySalon \<Rightarrow> BeautySalon" where
  "resolveSalon citiesMap cities statesMap states salon =
     extractCityFromAddress citiesMap cities statesMap states
       (inferStateFromAddress statesMap states
          (assignByCityId citiesMap cities statesMap states salon))"

section \<open>The collections and their lookup maps\<close>

record Collections =
  db_beautySalons :: "BeautySalon list"
  db_cities :: "City list"
  db_states :: "State list"
  db_categories :: "Category list"

definition citiesMapOf :: "Collections \<Rightarrow> jsMap" where
  "citiesMapOf db = newMap (map ci_id (db_cities db))"

definition statesMapOf :: "Collections \<Rightarrow> jsMap" where
  "statesMapOf db = newMap (map st_id (db_states db))"

definition categoriesMapOf :: "Collections \<Rightarrow> jsMap" where
  "categoriesMapOf db = newMap (map ca_id (db_categories db))"

text \<open>
  The resolution pass with the maps built at lines 280--282: the cities get their state
  names first, and the loop over the salons reads the cities through the map, that is,
  as already written.
\<close>

definition resolution :: "jsMap \<Rightarrow> jsMap \<Rightarrow> Collections \<Rightarrow> Collections" where
  "resolution citiesMap statesMap db =
     (let cities1 = map (addStateName statesMap (db_states db)) (db_cities db) in
      db\<lparr>db_cities := cities1,
         db_beautySalons :=
           map (resolveSalon citiesMap cities1 statesMap (db_states db)) (db_beautySalons db)\<rparr>)"

section \<open>Counting: lines 351--382\<close>

definition countCity :: "jsMap \<Rightarrow> City list \<Rightarrow> BeautySalon \<Rightarrow> City list" where
  "countCity citiesMap cities salon =
     (case bs_city_id salon of
        None \<Rightarrow> cities
      | Some cid \<Rightarrow>
          if cid = [] then cities
          else (case map_of citiesMap cid of
                  None \<Rightarrow> cities
                | Some i \<Rightarrow>
                    cities[i := (cities ! i)\<lparr>ci_salon_count :=
                                   Some (orZero (ci_salon_count (cities ! i)) + 1)\<rparr>]))"

definition countState :: "jsMap \<Rightarrow> State list \<Rightarrow> BeautySalon \<Rightarrow> State list" where
  "countState statesMap states salon =
     (case bs_state_id salon of
        None \<Rightarrow> states
      | Some sid \<Rightarrow>
          if sid = [] then states
          else (case map_of statesMap sid of
                  None \<Rightarrow> states
                | Some i \<Rightarrow>
                    states[i := (states ! i)\<lparr>st_salon_count :=
                                   Some (orZero (st_salon_count (states ! i)) + 1)\<rparr>]))"

definition countCategoryId :: "jsMap \<Rightarrow> Category list \<Rightarrow> string \<Rightarrow> Category list" where
  "countCategoryId categoriesMap categories categoryId =
     (case map_of categoriesMap categoryId of
        None \<Rightarrow> categories
      | Some i \<Rightarrow>
          categories[i := (categories ! i)\<lparr>ca_salon_count :=
                               Some (orZero (ca_salon_count (categories ! i)) + 1)\<rparr>])"

text \<open>\<^verbatim>\<open>s ? s.split(',') : []\<close>, the guard of line 366 and of the projection.\<close>

definition splitIds :: "string option \<Rightarrow> string list" where
  "splitIds v = (case v of None \<Rightarrow> [] | Some s \<Rightarrow> if s = [] then [] else split CHR '','' s)"

definition countCategories :: "jsMap \<Rightarrow> Category list \<Rightarrow> BeautySalon \<Rightarrow> Category list" where
  "countCategories categoriesMap categories salon =
     foldl (countCategoryId categoriesMap) categories (splitIds (bs_category_ids salon))"

definition countCityOfState :: "jsMap \<Rightarrow> State list \<Rightarrow> City \<Rightarrow> State list" where
  "countCityOfState statesMap states city =
     (if ci_state_id city \<noteq> [] then
        (case map_of statesMap (ci_state_id city) of
           None \<Rightarrow> states
         | Some i \<Rightarrow>
             states[i := (states ! i)\<lparr>st_city_count :=
                            Some (orZero (st_city_count (states ! i)) + 1)\<rparr>])
      else states)"

text \<open>The body of \<^verbatim>\<open>beautySalons.forEach(salon => ...)\<close> at line 352.\<close>

definition countSalon ::
  "jsMap \<Rightarrow> jsMap \<Rightarrow> jsMap \<Rightarrow> City list \<times> State list \<times> Category list \<Rightarrow> BeautySalon
     \<Rightarrow> City list \<times> State list \<times> Category list" where
  "countSalon citiesMap statesMap categoriesMap acc salon =
     (case acc of (cities, states, categories) \<Rightarrow>
        (countCity citiesMap cities salon,
         countState statesMap states salon,
         countCategories categoriesMap categories salon))"

definition counting :: "jsMap \<Rightarrow> jsMap \<Rightarrow> jsMap \<Rightarrow> Collections \<Rightarrow> Collections" where
  "counting citiesMap statesMap categoriesMap db =
     (case foldl (countSalon citiesMap statesMap categoriesMap)
             (db_cities db, db_states db, db_categories db) (db_beautySalons db) of
        (cities1, states1, categories1) \<Rightarrow>
          db\<lparr>db_cities := cities1,
             db_states := foldl (countCityOfState statesMap) states1 cities1,
             db_categories := categories1\<rparr>)"

section \<open>Projection build: lines 384--538\<close>

text \<open>
  \<^verbatim>\<open>slugify\<close> is imported from the npm package of that name; the projection takes the
  function \<^verbatim>\<open>s => slugify(s, { lower: true })\<close> as a parameter.
\<close>

record ProcessedSalon =
  ps_id :: string
  ps_title :: string
  ps_slug :: string
  ps_website :: "string option"
  ps_telephone :: "string option"
  ps_address :: "string option"
  ps_postal_code :: "string option"
  ps_latitude :: "string option"
  ps_longitude :: "string option"
  ps_email :: "string option"
  ps_opening_hours :: "string option"
  ps_description :: "string option"
  ps_service_product :: "string option"
  ps_reviews :: "string option"
  ps_average_star :: "string option"
  ps_city_id :: "string option"
  ps_city_name :: "string option"
  ps_state_id :: "string option"
  ps_state_name :: "string option"
  ps_category_ids :: "string list"
  ps_detail_keys :: "string list"
  ps_detail_values :: "string list"
  ps_amenity_ids :: "string list"
  ps_payment_ids :: "string list"
  ps_images :: "string list"

record ProcessedCity =
  pc_id :: string
  pc_city :: string
  pc_slug :: string
  pc_state_id :: string
  pc_state_name :: "string option"
  pc_salon_ids :: "string list"

record ProcessedState =
  pt_id :: string
  pt_state :: string
  pt_slug :: string
  pt_city_ids :: "string list"
  pt_salon_ids :: "string list"

record ProcessedCategory =
  pk_id :: string
  pk_category :: string
  pk_slug :: string
  pk_salon_ids :: "string list"

definition citySlug :: "(string \<Rightarrow> string) \<Rightarrow> BeautySalon \<Rightarrow> string" where
  "citySlug slugify salon =
     (case bs_city_name salon of
        None \<Rightarrow> ''unknown-city''
      | Some name \<Rightarrow> if name = [] then ''unknown-city'' else slugify name)"

text \<open>
  The state slug of lines 390--404, with the salon as the branch leaves it: the second
  branch writes \<^verbatim>\<open>salon.state_name\<close> on the raw record.
\<close>

definition stateSlug ::
  "(string \<Rightarrow> string) \<Rightarrow> jsMap \<Rightarrow> City list \<Rightarrow> jsMap \<Rightarrow> State list \<Rightarrow> BeautySalon
     \<Rightarrow> string \<times> BeautySalon" where
  "stateSlug slugify citiesMap cities statesMap states salon =
     (if truthy (bs_state_name salon) then
        (slugify (case bs_state_name salon of None \<Rightarrow> [] | Some name \<Rightarrow> name), salon)
      else
        (case lookupTruthy citiesMap cities (bs_city_id salon) of
           None \<Rightarrow> (''us'', salon)
         | Some city \<Rightarrow>
             (case lookupTruthy statesMap states (Some (ci_state_id city)) of
                None \<Rightarrow> (''us'', salon)
              | Some state \<Rightarrow>
                  (slugify (st_state state), salon\<lparr>bs_state_name := Some (st_state state)\<rparr>))))"

text \<open>
  The callback of \<^verbatim>\<open>beautySalons.map\<close> at line 385: the raw salon after the call, and
  the record the callback returns.
\<close>

definition processSalon ::
  "(string \<Rightarrow> string) \<Rightarrow> jsMap \<Rightarrow> City list \<Rightarrow> jsMap \<Rightarrow> State list \<Rightarrow> BeautySalon
     \<Rightarrow> BeautySalon \<times> ProcessedSalon" where
  "processSalon slugify citiesMap cities statesMap states salon0 =
     (case stateSlug slugify citiesMap cities statesMap states salon0 of
        (stateSlug1, salon) \<Rightarrow>
          (salon,
           \<lparr>ps_id = bs_id salon,
            ps_title = bs_title salon,
            ps_slug = slugify (citySlug slugify salon0 @ ''-'' @ stateSlug1 @ ''-'' @
                               bs_title salon @ ''-'' @ bs_id salon),
            ps_website = bs_website salon,
            ps_telephone = bs_telephone salon,
            ps_address = bs_address salon,
            ps_postal_code = bs_postal_code salon,
            ps_latitude = bs_latitude salon,
            ps_longitude = bs_longitude salon,
            ps_email = bs_email salon,
            ps_opening_hours = bs_opening_hours salon,
            ps_description = bs_description salon,
            ps_service_product = bs_service_product salon,
            ps_reviews = bs_reviews salon,
            ps_average_star = bs_average_star salon,
            ps_city_id = bs_city_id salon,
            ps_city_name = bs_city_name salon,
            ps_state_id = bs_state_id salon,
            ps_state_name = bs_state_name salon,
            ps_category_ids = splitIds (bs_category_ids salon),
            ps_detail_keys = splitIds (bs_detail_keys salon),
            ps_detail_values = splitIds (bs_detail_values salon),
            ps_amenity_ids = splitIds (bs_amenity_ids salon),
            ps_payment_ids = splitIds (bs_payment_ids salon),
            ps_images = splitIds (bs_images salon)\<rparr>))"

definition salonInCity :: "City \<Rightarrow> ProcessedSalon \<Rightarrow> bool" where
  "salonInCity city salon =
     (if truthy (ps_city_id salon) \<and> ps_city_id salon = Some (ci_id city) then True
      else if truthy (ps_city_name salon) \<and>
              map_option toLowerCase (ps_city_name salon) = Some (toLowerCase (ci_city city))
      then True
      else False)"

definition processCity :: "(string \<Rightarrow> string) \<Rightarrow> ProcessedSalon list \<Rightarrow> City \<Rightarrow> ProcessedCity" where
  "processCity slugify processedSalons city =
     \<lparr>pc_id = ci_id city,
      pc_city = ci_city city,
      pc_slug = slugify (ci_city city @ ''-'' @ ci_state_id city),
      pc_state_id = ci_state_id city,
      pc_state_name = ci_state_name city,
      pc_salon_ids = map ps_id (filter (salonInCity city) processedSalons)\<rparr>"

definition salonInState :: "State \<Rightarrow> string list \<Rightarrow> ProcessedSalon \<Rightarrow> bool" where
  "salonInState state cityIdsForState salon =
     (if truthy (ps_state_id salon) \<and> ps_state_id salon = Some (st_id state) then True
      else if truthy (ps_state_name salon) \<and>
              map_option toLowerCase (ps_state_name salon) = Some (toLowerCase (st_state state))
      then True
      else if truthy (ps_city_id salon) \<and>
              (case ps_city_id salon of None \<Rightarrow> False | Some cid \<Rightarrow> cid \<in> set cityIdsForState)
      then True
      else False)"

definition processState ::
  "(string \<Rightarrow> string) \<Rightarrow> ProcessedSalon list \<Rightarrow> ProcessedCity list \<Rightarrow> State \<Rightarrow> ProcessedState" where
  "processState slugify processedSalons processedCities state =
     (let cityIdsForState =
            map pc_id (filter (\<lambda>city. pc_state_id city = st_id state) processedCities)
      in \<lparr>pt_id = st_id state,
          pt_state = st_state state,
          pt_slug = slugify (st_state state),
          pt_city_ids = cityIdsForState,
          pt_salon_ids = map ps_id (filter (salonInState state cityIdsForState) processedSalons)\<rparr>)"

definition processCategory ::
  "(string \<Rightarrow> string) \<Rightarrow> ProcessedSalon list \<Rightarrow> Category \<Rightarrow> ProcessedCategory" where
  "processCategory slugify processedSalons category =
     \<lparr>pk_id = ca_id category,
      pk_category = ca_category category,
      pk_slug = slugify (ca_category category),
      pk_salon_ids =
        map ps_id (filter (\<lambda>salon. ca_id category \<in> set (ps_category_ids salon)) processedSalons)\<rparr>"

record Projection =
  processedSalons :: "ProcessedSalon list"
  processedCities :: "ProcessedCity list"
  processedStates :: "ProcessedState list"
  processedCategories :: "ProcessedCategory list"

text \<open>
  The projection build: the collections as it leaves them, and the four processed
  sequences.
\<close>

definition projection ::
  "(string \<Rightarrow> string) \<Rightarrow> jsMap \<Rightarrow> jsMap \<Rightarrow> Collections \<Rightarrow> Collections \<times> Projection" where
  "projection slugify citiesMap statesMap db =
     (let results = map (processSalon slugify citiesMap (db_cities db) statesMap (db_states db))
                        (db_beautySalons db);
          pSalons = map snd results;
          pCities = map (processCity slugify pSalons) (db_cities db)
      in (db\<lparr>db_beautySalons := map fst results\<rparr>,
          \<lparr>processedSalons = pSalons,
           processedCities = pCities,
           processedStates = map (processState slugify pSalons pCities) (db_states db),
           processedCategories = map (processCategory slugify pSalons) (db_categories db)\<rparr>))"

section \<open>The \<^verbatim>\<open>slugify\<close> package\<close>

text \<open>
  \<^verbatim>\<open>slugify(string, { lower: true })\<close> as the package (version 1.6) defines it: every
  character is replaced through the package's table \<^verbatim>\<open>charMap\<close>, a replacement that is
  exactly \<^verbatim>\<open>-\<close> becomes a space, characters outside
  \<^verbatim>\<open>[\w\s$*_+~.()'"!\-:@]\<close> are removed, the result is trimmed, every run of white
  space becomes one \<^verbatim>\<open>-\<close>, and the slug is lower-cased. The table is a parameter.
\<close>

definition isWordChar :: "char \<Rightarrow> bool" where
  "isWordChar c =
     (c \<in> set ''abcdefghijklmnopqrstuvwxyzABCDEFGHIJKLMNOPQRSTUVWXYZ0123456789_'')"

definition allowedChar :: "char \<Rightarrow> bool" where
  "allowedChar c =
     (isWordChar c \<or> isSpace c \<or>
      c \<in> set [CHR ''$'', CHR ''*'', CHR ''_'', CHR ''+'', CHR ''~'', CHR ''.'', CHR ''('',
                 CHR '')'', CHR 0x27, CHR 0x22, CHR ''!'', CHR ''-'', CHR '':'', CHR ''@''])"

definition appendChar :: "(char \<Rightarrow> string option) \<Rightarrow> char \<Rightarrow> string" where
  "appendChar charMap ch =
     (let a = (case charMap ch of None \<Rightarrow> [ch] | Some r \<Rightarrow> r);
          a1 = (if a = ''-'' then '' '' else a)
      in filter allowedChar a1)"

text \<open>\<^verbatim>\<open>slug.replace(/\s+/g, '-')\<close>\<close>

function collapseSpaces :: "string \<Rightarrow> string" where
  "collapseSpaces [] = []"
| "collapseSpaces (c # cs) =
     (if isSpace c then CHR ''-'' # collapseSpaces (dropWhile isSpace cs)
      else c # collapseSpaces cs)"
  by pat_completeness auto
termination
  by (relation "measure length") (auto simp: less_Suc_eq_le length_dropWhile_le)

definition slugifyLower :: "(char \<Rightarrow> string option) \<Rightarrow> string \<Rightarrow> string" where
  "slugifyLower charMap s =
     toLowerCase (collapseSpaces (trim (concat (map (appendChar charMap) s))))"

text \<open>The entries of the package's table for ASCII characters.\<close>

definition charMapAscii :: "char \<Rightarrow> string option" where
  "charMapAscii =
     map_of [(CHR ''$'', ''dollar''), (CHR ''%'', ''percent''), (CHR ''&'', ''and''),
             (CHR ''<'', ''less''), (CHR ''>'', ''greater''), (CHR ''|'', ''or'')]"

section \<open>Company sitemaps: lines 1111--1132 of \<^verbatim>\<open>generateSitemaps\<close>\<close>

definition nl :: string where
  "nl = [CHR 0x0A]"

definition baseUrl :: string where
  "baseUrl = ''https://electrolysisdirectory.com''"

text \<open>The decimal digits of a number, as a template literal prints it.\<close>

fun numberToString :: "nat \<Rightarrow> string" where
  "numberToString n =
     (if n < 10 then [''0123456789'' ! n]
      else numberToString (n div 10) @ [''0123456789'' ! (n mod 10)])"

text \<open>\<^verbatim>\<open>xs.slice(i, j)\<close> for \<open>i \<le> j\<close>.\<close>

definition slice :: "'a list \<Rightarrow> nat \<Rightarrow> nat \<Rightarrow> 'a list" where
  "slice xs i j = take (j - i) (drop i xs)"

definition urlEntry :: "ProcessedSalon \<Rightarrow> string" where
  "urlEntry salon =
     ''  <url>'' @ nl @
     ''    <loc>'' @ baseUrl @ ''/companies/'' @ ps_slug salon @ ''/</loc>'' @ nl @
     ''    <changefreq>monthly</changefreq>'' @ nl @
     ''    <priority>0.8</priority>'' @ nl @
     ''  </url>'' @ nl"

definition urlEntries :: "ProcessedSalon list \<Rightarrow> string list" where
  "urlEntries chunk = map urlEntry chunk"

definition sitemapXml :: "ProcessedSalon list \<Rightarrow> string" where
  "sitemapXml chunk =
     ''<?xml version=\"1.0\" encoding=\"UTF-8\"?>'' @ nl @
     ''<urlset xmlns=\"http://www.sitemaps.org/schemas/sitemap/0.9\">'' @ nl @
     concat (urlEntries chunk) @
     ''</urlset>''"

text \<open>
  The loop \<^verbatim>\<open>for (let i = 0; i < salons.length; i += 200)\<close>: the files written, each
  with its name and content, in order.
\<close>

function companySitemapsFrom :: "ProcessedSalon list \<Rightarrow> nat \<Rightarrow> (string \<times> string) list" where
  "companySitemapsFrom salons i =
     (if i < length salons then
        (let chunk = slice salons i (i + 200);
             sitemapIndex = i div 200 + 1;
             filename = ''companies-sitemap'' @ numberToString sitemapIndex @ ''.xml''
         in (filename, sitemapXml chunk) # companySitemapsFrom salons (i + 200))
      else [])"
  by pat_completeness auto
termination
  by (relation "measure (\<lambda>(salons, i). length salons - i)") auto

definition companySitemaps :: "ProcessedSalon list \<Rightarrow> (string \<times> string) list" where
  "companySitemaps salons = companySitemapsFrom salons 0"

text \<open>
  The number of places of a text at which a pattern starts: the number of \<^verbatim>\<open><url>\<close>
  elements of a sitemap is the number of occurrences of the tag in the written file.
\<close>

fun startsWith :: "string \<Rightarrow> string \<Rightarrow> bool" where
  "startsWith [] s = True"
| "startsWith (p # ps) [] = False"
| "startsWith (p # ps) (c # cs) = (p = c \<and> startsWith ps cs)"

fun occurrences :: "string \<Rightarrow> string \<Rightarrow> nat" where
  "occurrences pat [] = 0"
| "occurrences pat (c # cs) = (if startsWith pat (c # cs) then 1 else 0) + occurrences pat cs"

section \<open>The pipeline of \<^verbatim>\<open>generateHTML\<close>\<close>

text \<open>The resolution pass on collections as loaded, with the maps built from them.\<close>

definition resolved :: "Collections \<Rightarrow> Collections" where
  "resolved db = resolution (citiesMapOf db) (statesMapOf db) db"

definition counted :: "Collections \<Rightarrow> Collections" where
  "counted db = counting (citiesMapOf db) (statesMapOf db) (categoriesMapOf db) (resolved db)"

definition generateHTML ::
  "(string \<Rightarrow> string) \<Rightarrow> Collections \<Rightarrow> Collections \<times> Projection \<times> (string \<times> string) list" where
  "generateHTML slugify db =
     (case projection slugify (citiesMapOf db) (statesMapOf db) (counted db) of
        (db1, p) \<Rightarrow> (db1, p, companySitemaps (processedSalons p)))"

text \<open>The company sitemap files that a run writes, each with its name and content.\<close>

definition sitemapFiles :: "(string \<Rightarrow> string) \<Rightarrow> Collections \<Rightarrow> (string \<times> string) list" where
  "sitemapFiles slugify db = snd (snd (generateHTML slugify db))"

text \<open>A salon row with only its required columns.\<close>

definition blankSalon :: "string \<Rightarrow> string \<Rightarrow> BeautySalon" where
  "blankSalon i t =
     \<lparr>bs_id = i, bs_title = t, bs_website = None, bs_telephone = None, bs_address = None,
      bs_postal_code = None, bs_latitude = None, bs_longitude = None, bs_email = None,
      bs_opening_hours = None, bs_description = None, bs_service_product = None,
      bs_reviews = None, bs_average_star = None, bs_city_id = None, bs_city_name = None,
      bs_state_id = None, bs_state_name = None, bs_category_ids = None, bs_detail_keys = None,
      bs_detail_values = None, bs_amenity_ids = None, bs_payment_ids = None, bs_images = None\<rparr>"

definition mkCity :: "string \<Rightarrow> string \<Rightarrow> string \<Rightarrow> City" where
  "mkCity i name sid =
     \<lparr>ci_id = i, ci_city = name, ci_state_id = sid, ci_state_name = None, ci_salon_count = None\<rparr>"

definition mkState :: "string \<Rightarrow> string \<Rightarrow> State" where
  "mkState i name = \<lparr>st_id = i, st_state = name, st_city_count = None, st_salon_count = None\<rparr>"

definition mkCategory :: "string \<Rightarrow> string \<Rightarrow> Category" where
  "mkCategory i name = \<lparr>ca_id = i, ca_category = name, ca_salon_count = None\<rparr>"



text \<open>A non-empty string of decimal digits.\<close>

definition isDigits :: "string \<Rightarrow> bool" where
  "isDigits s = (s \<noteq> [] \<and> set s \<subseteq> set ''0123456789'')"

section \<open>Quantities and conditions the properties are stated with\<close>

text \<open>
  The number of salons whose split \<^verbatim>\<open>category_ids\<close> contains the id of a category,
  as \<^verbatim>\<open>salon.category_ids.includes(category.id)\<close> decides it.
\<close>

definition salonsListing :: "Collections \<Rightarrow> Category \<Rightarrow> nat" where
  "salonsListing db category =
     length (filter (\<lambda>salon. ca_id category \<in> set (splitIds (bs_category_ids salon)))
               (db_beautySalons db))"

text \<open>The number of cities whose \<^verbatim>\<open>state_id\<close> equals the id of a state.\<close>

definition citiesInState :: "Collections \<Rightarrow> State \<Rightarrow> nat" where
  "citiesInState db state =
     length (filter (\<lambda>city. ci_state_id city = st_id state) (db_cities db))"

text \<open>A salon that lists no category id twice.\<close>

definition noRepeatedCategory :: "BeautySalon \<Rightarrow> bool" where
  "noRepeatedCategory salon = distinct (splitIds (bs_category_ids salon))"

text \<open>
  The name of the State of a Business's city, for a Business that has no state name and
  whose \<^verbatim>\<open>city_id\<close> resolves to a City whose \<^verbatim>\<open>state_id\<close> resolves; and the
  Business with this name as its \<^verbatim>\<open>state_name\<close>.
\<close>

definition missingStateName ::
  "jsMap \<Rightarrow> City list \<Rightarrow> jsMap \<Rightarrow> State list \<Rightarrow> BeautySalon \<Rightarrow> string option" where
  "missingStateName citiesMap cities statesMap states salon =
     (if truthy (bs_state_name salon) then None
      else (case lookupTruthy citiesMap cities (bs_city_id salon) of
              None \<Rightarrow> None
            | Some city \<Rightarrow>
                map_option st_state (lookupTruthy statesMap states (Some (ci_state_id city)))))"

definition fillStateName ::
  "jsMap \<Rightarrow> City list \<Rightarrow> jsMap \<Rightarrow> State list \<Rightarrow> BeautySalon \<Rightarrow> BeautySalon" where
  "fillStateName citiesMap cities statesMap states salon =
     (case missingStateName citiesMap cities statesMap states salon of
        None \<Rightarrow> salon
      | Some name \<Rightarrow> salon\<lparr>bs_state_name := Some name\<rparr>)"


section \<open>Example datasets\<close>

text \<open>
  A city whose state has an empty name, with an address that names another state; and a
  city whose \<^verbatim>\<open>state_id\<close> is not in the state collection.
\<close>

definition exampleStateOverride :: Collections where
  "exampleStateOverride =
     \<lparr>db_beautySalons =
        [(blankSalon ''5'' ''Salon'')\<lparr>bs_city_id := Some ''1'',
            bs_address := Some ''1 Main St, Springfield, IL, USA''\<rparr>,
         (blankSalon ''6'' ''Spa'')\<lparr>bs_city_id := Some ''2'', bs_state_id := Some ''TX1''\<rparr>],
      db_cities = [mkCity ''1'' ''Springfield'' ''S1'', mkCity ''2'' ''Austin'' ''XX''],
      db_states = [mkState ''S1'' [], mkState ''S2'' ''Illinois'', mkState ''TX1'' ''Texas''],
      db_categories = []\<rparr>"

text \<open>A salon loaded with the state of Texas whose city is in Illinois.\<close>

definition exampleCityWins :: Collections where
  "exampleCityWins =
     \<lparr>db_beautySalons =
        [(blankSalon ''5'' ''Salon'')\<lparr>bs_city_id := Some ''1'', bs_state_id := Some ''TX1'',
            bs_state_name := Some ''Texas'',
            bs_address := Some ''1 Main St, Springfield, TX, USA''\<rparr>],
      db_cities = [mkCity ''1'' ''Springfield'' ''IL1''],
      db_states = [mkState ''TX1'' ''Texas'', mkState ''IL1'' ''Illinois''],
      db_categories = []\<rparr>"


definition exampleRepeatedCategory :: Collections where
  "exampleRepeatedCategory =
     \<lparr>db_beautySalons = [(blankSalon ''1'' ''Salon'')\<lparr>bs_category_ids := Some ''3,3''\<rparr>],
      db_cities = [], db_states = [], db_categories = [mkCategory ''3'' ''Hair'']\<rparr>"

definition exampleCategories :: Collections where
  "exampleCategories =
     \<lparr>db_beautySalons =
        [(blankSalon ''1'' ''Salon'')\<lparr>bs_category_ids := Some ''3,4''\<rparr>,
         (blankSalon ''2'' ''Spa'')\<lparr>bs_category_ids := Some ''4''\<rparr>,
         blankSalon ''3'' ''Studio''],
      db_cities = [], db_states = [],
      db_categories = [mkCategory ''3'' ''Hair'', mkCategory ''4'' ''Skin'']\<rparr>"

text \<open>
  A salon loaded with a \<^verbatim>\<open>state_id\<close> that no state has and no state name, whose
  address gives it a city in Illinois.
\<close>

definition exampleMissingStateName :: Collections where
  "exampleMissingStateName =
     \<lparr>db_beautySalons =
        [(blankSalon ''5'' ''Salon'')\<lparr>bs_state_id := Some ''ZZ'',
            bs_address := Some ''123 Main St, Springfield, XX, USA''\<rparr>],
      db_cities = [mkCity ''9'' ''Springfield'' ''IL1''],
      db_states = [mkState ''IL1'' ''Illinois''],
      db_categories = []\<rparr>"

definition exampleBlankStateId :: Collections where
  "exampleBlankStateId =
     \<lparr>db_beautySalons = [], db_cities = [mkCity ''1'' ''Springfield'' []],
      db_states = [mkState [] ''Illinois''], db_categories = []\<rparr>"

definition exampleCityCounts :: Collections where
  "exampleCityCounts =
     \<lparr>db_beautySalons = [],
      db_cities = [mkCity ''1'' ''Springfield'' ''IL1'', mkCity ''2'' ''Austin'' ''TX1'',
                   mkCity ''3'' ''Peoria'' ''IL1''],
      db_states = [mkState ''TX1'' ''Texas'', mkState ''IL1'' ''Illinois''],
      db_categories = []\<rparr>"

definition newYorkSalon :: "string \<Rightarrow> string \<Rightarrow> BeautySalon" where
  "newYorkSalon i t = (blankSalon i t)\<lparr>bs_address := Some ''1 A St, Suite 2, New York, NY''\<rparr>"

definition springfieldSalon :: "string \<Rightarrow> BeautySalon" where
  "springfieldSalon t =
     (blankSalon ''5'' t)\<lparr>bs_city_id := Some [],
        bs_address := Some ''123 Main St, Springfield, IL, USA''\<rparr>"

definition peoriaSalon :: BeautySalon where
  "peoriaSalon =
     (blankSalon ''7'' ''Salon'')\<lparr>bs_state_id := Some ''ZZ'',
        bs_address := Some ''12 Oak Ave, Peoria, IL, USA''\<rparr>"

definition peoriaStates :: "State list" where
  "peoriaStates =
     [mkState ''IN1'' ''Indiana'', mkState ''IL1'' ''Illinois'', mkState ''IL2'' ''Ilocos'']"

text \<open>
  The Business of the Springfield example, with another City listed before its City and
  another City of the same name after it; and with a City of the same name before it.
\<close>

definition exampleSpringfield :: Collections where
  "exampleSpringfield =
     \<lparr>db_beautySalons = [blankSalon ''4'' ''Spa'', springfieldSalon ''Salon''],
      db_cities = [mkCity ''7'' ''Peoria'' ''IL1'', mkCity ''9'' ''Springfield'' ''IL1'',
                   mkCity ''12'' ''Springfield'' ''MO1''],
      db_states = [mkState ''IL1'' ''Illinois'', mkState ''MO1'' ''Missouri''],
      db_categories = []\<rparr>"

definition exampleTwoSpringfields :: Collections where
  "exampleTwoSpringfields =
     \<lparr>db_beautySalons = [springfieldSalon ''Salon''],
      db_cities = [mkCity ''12'' ''Springfield'' ''MO1'', mkCity ''9'' ''Springfield'' ''IL1''],
      db_states = [mkState ''IL1'' ''Illinois'', mkState ''MO1'' ''Missouri''],
      db_categories = []\<rparr>"


text \<open>Two hundred Businesses.\<close>

definition example200 :: Collections where
  "example200 =
     \<lparr>db_beautySalons = replicate 200 (blankSalon ''1'' ''Salon''), db_cities = [],
      db_states = [], db_categories = []\<rparr>"

section \<open>The lookup maps\<close>

lemma map_of_mapSet: "map_of (mapSet m k v) = (map_of m)(k \<mapsto> v)"
  by (induction m k v rule: mapSet.induct) auto

lemma map_of_foldl_mapSet:
  "map_of (foldl (\<lambda>m (k, v). mapSet m k v) m kvs) = map_of m ++ map_of (rev kvs)"
proof (induction kvs arbitrary: m)
  case Nil
  show ?case by simp
next
  case (Cons kv kvs)
  obtain k v where kv: "kv = (k, v)" by (cases kv)
  show ?case
    by (simp add: Cons.IH kv map_of_mapSet map_add_def fun_eq_iff split: option.splits)
qed

lemma map_of_newMap: "map_of (newMap ids) = map_of (rev (zip ids [0..<length ids]))"
  by (simp add: newMap_def map_of_foldl_mapSet)

lemma newMap_Nil: "newMap [] = []"
  by (simp add: newMap_def)

lemma newMap_single: "newMap [k] = [(k, 0)]"
  by (simp add: newMap_def)

text \<open>A key of the map refers to an object of the array that has this key.\<close>

lemma newMap_SomeD:
  assumes "map_of (newMap ids) k = Some i"
  shows "i < length ids \<and> ids ! i = k"
proof -
  from assms have "(k, i) \<in> set (zip ids [0..<length ids])"
    by (auto simp: map_of_newMap dest: map_of_SomeD)
  then show ?thesis
    by (auto simp: in_set_zip)
qed

lemma newMap_distinct:
  assumes "distinct ids" "i < length ids"
  shows "map_of (newMap ids) (ids ! i) = Some i"
proof -
  have d: "distinct (map fst (rev (zip ids [0..<length ids])))"
    using assms(1) by (simp add: rev_map[symmetric])
  have "(ids ! i, i) \<in> set (rev (zip ids [0..<length ids]))"
    using assms(2) by (auto simp: in_set_zip)
  with d show ?thesis
    by (simp add: map_of_newMap)
qed

lemma newMap_distinct_iff:
  assumes "distinct ids" "i < length ids"
  shows "map_of (newMap ids) k = Some i \<longleftrightarrow> k = ids ! i"
  using assms newMap_SomeD newMap_distinct by blast

lemma mapGet_map: "mapGet m (map f arr) k = map_option f (mapGet m arr k)"
  by (simp add: mapGet_def split: option.splits)

lemma lookupTruthy_map: "lookupTruthy m (map f arr) k = map_option f (lookupTruthy m arr k)"
  by (simp add: lookupTruthy_def mapGet_map split: option.splits)

section \<open>What the resolution pass keeps\<close>

lemma falsy_iff: "falsy v \<longleftrightarrow> \<not> truthy v"
  by (simp add: falsy_def truthy_def split: option.splits)

lemma addStateName_fields [simp]:
  "ci_id (addStateName sm sts c) = ci_id c"
  "ci_city (addStateName sm sts c) = ci_city c"
  "ci_state_id (addStateName sm sts c) = ci_state_id c"
  "ci_salon_count (addStateName sm sts c) = ci_salon_count c"
  by (simp_all add: addStateName_def split: option.splits)


lemma resolved_fields:
  "db_states (resolved db) = db_states db"
  "db_categories (resolved db) = db_categories db"
  "db_cities (resolved db) = map (addStateName (statesMapOf db) (db_states db)) (db_cities db)"
  "db_beautySalons (resolved db) =
     map (resolveSalon (citiesMapOf db)
            (map (addStateName (statesMapOf db) (db_states db)) (db_cities db))
            (statesMapOf db) (db_states db))
         (db_beautySalons db)"
  by (simp_all add: resolved_def resolution_def Let_def)

lemma resolved_eq:
  "resolved db =
     db\<lparr>db_cities := map (addStateName (statesMapOf db) (db_states db)) (db_cities db),
        db_beautySalons :=
          map (resolveSalon (citiesMapOf db)
                 (map (addStateName (statesMapOf db) (db_states db)) (db_cities db))
                 (statesMapOf db) (db_states db))
              (db_beautySalons db)\<rparr>"
  by (simp add: resolved_def resolution_def Let_def)

lemma infer_fields [simp]:
  "bs_city_id (inferStateFromAddress sm sts s) = bs_city_id s"
  "bs_city_name (inferStateFromAddress sm sts s) = bs_city_name s"
  "bs_address (inferStateFromAddress sm sts s) = bs_address s"
  "bs_category_ids (inferStateFromAddress sm sts s) = bs_category_ids s"
  by (simp_all add: inferStateFromAddress_def split: option.splits prod.splits)

lemma assign_category_ids [simp]:
  "bs_category_ids (assignByCityId cm cs sm sts s) = bs_category_ids s"
  by (simp add: assignByCityId_def Let_def split: option.splits)

lemma extract_category_ids [simp]:
  "bs_category_ids (extractCityFromAddress cm cs sm sts s) = bs_category_ids s"
  by (simp add: extractCityFromAddress_def Let_def split: option.splits prod.splits)

lemma resolveSalon_category_ids [simp]:
  "bs_category_ids (resolveSalon cm cs sm sts s) = bs_category_ids s"
  by (simp add: resolveSalon_def)

section \<open>The counting pass\<close>

lemma map_update_same: "(map f xs)[i := f (xs ! i)] = map f xs"
proof (cases "i < length xs")
  case True
  then have "(map f xs)[i := (map f xs) ! i] = map f xs" by (simp only: list_update_id)
  with True show ?thesis by simp
next
  case False
  then have "length (map f xs) \<le> i" by simp
  then show ?thesis by (rule list_update_beyond)
qed

lemma length_filter_map: "length (filter (\<lambda>x. Q (f x)) xs) = length (filter Q (map f xs))"
  by (simp add: filter_map comp_def)

text \<open>The loop over the salons updates the three collections independently.\<close>

lemma foldl_countSalon:
  "foldl (countSalon cm sm km) (cs, ss, ks) salons =
     (foldl (countCity cm) cs salons, foldl (countState sm) ss salons,
      foldl (countCategories km) ks salons)"
  by (induction salons arbitrary: cs ss ks) (simp_all add: countSalon_def)

lemma counting_eq:
  "counting cm sm km db =
     db\<lparr>db_cities := foldl (countCity cm) (db_cities db) (db_beautySalons db),
        db_states := foldl (countCityOfState sm)
                       (foldl (countState sm) (db_states db) (db_beautySalons db))
                       (foldl (countCity cm) (db_cities db) (db_beautySalons db)),
        db_categories := foldl (countCategories km) (db_categories db) (db_beautySalons db)\<rparr>"
  by (simp add: counting_def foldl_countSalon)

lemma countCity_length [simp]: "length (countCity cm cs s) = length cs"
  by (simp add: countCity_def split: option.splits)

lemma countCity_state_id [simp]: "map ci_state_id (countCity cm cs s) = map ci_state_id cs"
  by (auto simp: countCity_def map_update map_update_same split: option.splits)

lemma foldl_countCity_state_id [simp]:
  "map ci_state_id (foldl (countCity cm) cs salons) = map ci_state_id cs"
  by (induction salons arbitrary: cs) simp_all

lemma countState_length [simp]: "length (countState sm ss s) = length ss"
  by (simp add: countState_def split: option.splits)

lemma countState_keep [simp]:
  "map st_id (countState sm ss s) = map st_id ss"
  "map st_city_count (countState sm ss s) = map st_city_count ss"
  by (auto simp: countState_def map_update map_update_same split: option.splits)

lemma foldl_countState_keep [simp]:
  "map st_id (foldl (countState sm) ss salons) = map st_id ss"
  "map st_city_count (foldl (countState sm) ss salons) = map st_city_count ss"
  by (induction salons arbitrary: ss) simp_all

lemma foldl_countState_length [simp]: "length (foldl (countState sm) ss salons) = length ss"
  by (induction salons arbitrary: ss) simp_all

lemma countCityOfState_length [simp]: "length (countCityOfState sm ss c) = length ss"
  by (simp add: countCityOfState_def split: option.splits)

lemma countCityOfState_id [simp]: "map st_id (countCityOfState sm ss c) = map st_id ss"
  by (auto simp: countCityOfState_def map_update map_update_same split: option.splits)

lemma foldl_countCityOfState_length [simp]:
  "length (foldl (countCityOfState sm) ss cs) = length ss"
  by (induction cs arbitrary: ss) simp_all

lemma foldl_countCityOfState_id [simp]:
  "map st_id (foldl (countCityOfState sm) ss cs) = map st_id ss"
  by (induction cs arbitrary: ss) simp_all

text \<open>One city adds one to the state its \<^verbatim>\<open>state_id\<close> refers to, and to no other.\<close>

lemma countCityOfState_count:
  assumes "i < length ss"
  shows "orZero (st_city_count (countCityOfState sm ss c ! i)) =
         orZero (st_city_count (ss ! i)) +
         (if ci_state_id c \<noteq> [] \<and> map_of sm (ci_state_id c) = Some i then 1 else 0)"
  using assms
  by (auto simp: countCityOfState_def orZero_def nth_list_update split: option.splits)

lemma foldl_countCityOfState_count:
  assumes "i < length ss"
  shows "orZero (st_city_count (foldl (countCityOfState sm) ss cs ! i)) =
         orZero (st_city_count (ss ! i)) +
         length (filter (\<lambda>c. ci_state_id c \<noteq> [] \<and> map_of sm (ci_state_id c) = Some i) cs)"
  using assms
proof (induction cs arbitrary: ss)
  case Nil
  show ?case by simp
next
  case (Cons c cs)
  have "i < length (countCityOfState sm ss c)" using Cons.prems by simp
  from Cons.IH[OF this] show ?case
    using Cons.prems by (simp add: countCityOfState_count)
qed

lemma counted_fields:
  "db_beautySalons (counted db) = db_beautySalons (resolved db)"
  "db_cities (counted db) =
     foldl (countCity (citiesMapOf db)) (db_cities (resolved db)) (db_beautySalons (resolved db))"
  "db_states (counted db) =
     foldl (countCityOfState (statesMapOf db))
       (foldl (countState (statesMapOf db)) (db_states db) (db_beautySalons (resolved db)))
       (db_cities (counted db))"
  "db_categories (counted db) =
     foldl (countCategories (categoriesMapOf db)) (db_categories db) (db_beautySalons (resolved db))"
  by (simp_all add: counted_def counting_eq resolved_fields(1,2))

lemma counted_state_ids: "map st_id (db_states (counted db)) = map st_id (db_states db)"
  by (simp add: counted_fields(3))

lemma countCategoryId_length [simp]: "length (countCategoryId km ks k) = length ks"
  by (simp add: countCategoryId_def split: option.splits)

lemma countCategoryId_id [simp]: "map ca_id (countCategoryId km ks k) = map ca_id ks"
  by (auto simp: countCategoryId_def map_update map_update_same split: option.splits)

lemma foldl_countCategoryId_length [simp]:
  "length (foldl (countCategoryId km) ks ids) = length ks"
  by (induction ids arbitrary: ks) simp_all

lemma foldl_countCategoryId_id [simp]:
  "map ca_id (foldl (countCategoryId km) ks ids) = map ca_id ks"
  by (induction ids arbitrary: ks) simp_all

lemma countCategories_length [simp]: "length (countCategories km ks s) = length ks"
  by (simp add: countCategories_def)

lemma foldl_countCategories_length [simp]:
  "length (foldl (countCategories km) ks salons) = length ks"
  by (induction salons arbitrary: ks) (simp_all add: countCategories_def)

lemma foldl_countCategories_id [simp]:
  "map ca_id (foldl (countCategories km) ks salons) = map ca_id ks"
  by (induction salons arbitrary: ks) (simp_all add: countCategories_def)

lemma countCategoryId_count:
  assumes "i < length ks"
  shows "orZero (ca_salon_count (countCategoryId km ks k ! i)) =
         orZero (ca_salon_count (ks ! i)) + (if map_of km k = Some i then 1 else 0)"
  using assms
  by (auto simp: countCategoryId_def orZero_def nth_list_update split: option.splits)

lemma foldl_countCategoryId_count:
  assumes "i < length ks"
  shows "orZero (ca_salon_count (foldl (countCategoryId km) ks ids ! i)) =
         orZero (ca_salon_count (ks ! i)) + length (filter (\<lambda>k. map_of km k = Some i) ids)"
  using assms
proof (induction ids arbitrary: ks)
  case Nil
  show ?case by simp
next
  case (Cons k ids)
  have "i < length (countCategoryId km ks k)" using Cons.prems by simp
  from Cons.IH[OF this] show ?case
    using Cons.prems by (simp add: countCategoryId_count)
qed

text \<open>
  A category's counter grows by the number of occurrences of its key in the split
  \<^verbatim>\<open>category_ids\<close> of the salons: one increment for each occurrence.
\<close>

lemma foldl_countCategories_count:
  assumes "i < length ks"
  shows "orZero (ca_salon_count (foldl (countCategories km) ks salons ! i)) =
         orZero (ca_salon_count (ks ! i)) +
         sum_list (map (\<lambda>s. length (filter (\<lambda>k. map_of km k = Some i)
                                        (splitIds (bs_category_ids s)))) salons)"
  using assms
proof (induction salons arbitrary: ks)
  case Nil
  show ?case by simp
next
  case (Cons s salons)
  have "i < length (countCategories km ks s)" using Cons.prems by simp
  from Cons.IH[OF this] show ?case
    using Cons.prems by (simp add: countCategories_def foldl_countCategoryId_count)
qed

lemma sum_list_indicator: "sum_list (map (\<lambda>x. if P x then 1 else 0) xs) = length (filter P xs)"
  by (induction xs) simp_all

lemma length_filter_eq_distinct:
  assumes "distinct ids"
  shows "length (filter (\<lambda>k. k = c) ids) = (if c \<in> set ids then 1 else 0)"
  using assms by (induction ids) auto

section \<open>Cities per state\<close>

text \<open>
  Claim C7, as amended. After the counting pass, for every State whose id is not empty
  and is the id of no other State, and whose counter was absent when loaded,
  \<^verbatim>\<open>city_count\<close> (read as 0 when no increment has set it) is the number of Cities of
  the City collection whose \<^verbatim>\<open>state_id\<close> equals that State's id.
\<close>

theorem city_count_exact:
  assumes "distinct (map st_id (db_states db))"
    and "i < length (db_states db)"
    and "st_id (db_states db ! i) \<noteq> []"
    and "st_city_count (db_states db ! i) = None"
  shows "orZero (st_city_count (db_states (counted db) ! i)) =
         citiesInState (counted db) (db_states (counted db) ! i)"
proof -
  let ?sm = "statesMapOf db"
  let ?ss = "foldl (countState ?sm) (db_states db) (db_beautySalons (resolved db))"
  let ?k = "st_id (db_states db ! i)"
  have len: "i < length ?ss" using assms(2) by simp
  have "map st_city_count ?ss ! i = map st_city_count (db_states db) ! i" by simp
  then have zero: "st_city_count (?ss ! i) = None"
    using assms(2,4) len by (simp only: nth_map)
  have key: "map_of ?sm k = Some i \<longleftrightarrow> k = ?k" for k
    using newMap_distinct_iff[OF assms(1), of i k] assms(2) by (simp add: statesMapOf_def)
  have "map st_id (db_states (counted db)) ! i = map st_id (db_states db) ! i"
    by (simp only: counted_state_ids)
  moreover have "i < length (db_states (counted db))"
    using assms(2) by (simp add: counted_fields(3))
  ultimately have id: "st_id (db_states (counted db) ! i) = ?k"
    using assms(2) by (simp only: nth_map)
  have "orZero (st_city_count (db_states (counted db) ! i)) =
        length (filter (\<lambda>c. ci_state_id c \<noteq> [] \<and> map_of ?sm (ci_state_id c) = Some i)
                  (db_cities (counted db)))"
    using foldl_countCityOfState_count[OF len, of ?sm "db_cities (counted db)"] zero
    by (simp add: counted_fields(3) orZero_def)
  also have "(\<lambda>c. ci_state_id c \<noteq> [] \<and> map_of ?sm (ci_state_id c) = Some i) =
             (\<lambda>c. ci_state_id c = ?k)"
    using assms(3) by (auto simp: key)
  finally show ?thesis by (simp only: id citiesInState_def)
qed

text \<open>Illinois, the second State of the example, has two of the three Cities.\<close>

theorem city_count_exact_witness:
  "orZero (st_city_count (db_states (counted exampleCityCounts) ! 1)) = 2 \<and>
   citiesInState (counted exampleCityCounts) (db_states (counted exampleCityCounts) ! 1) = 2"
proof -
  have "distinct (map st_id (db_states exampleCityCounts))"
    "1 < length (db_states exampleCityCounts)"
    "st_id (db_states exampleCityCounts ! 1) \<noteq> []"
    "st_city_count (db_states exampleCityCounts ! 1) = None"
    by (simp_all add: exampleCityCounts_def mkState_def)
  from city_count_exact[OF this] have
    "orZero (st_city_count (db_states (counted exampleCityCounts) ! 1)) =
     citiesInState (counted exampleCityCounts) (db_states (counted exampleCityCounts) ! 1)" .
  moreover have "orZero (st_city_count (db_states (counted exampleCityCounts) ! 1)) = 2"
    by code_simp
  ultimately show ?thesis by simp
qed

text \<open>
  Claim C7 as stated fails for a State whose id is the empty string: the guard
  \<^verbatim>\<open>city.state_id && ...\<close> skips the City with the same empty \<^verbatim>\<open>state_id\<close>, so the
  State's counter stays absent while one City has its id.
\<close>

theorem city_count_blank_id_counterexample:
  "orZero (st_city_count (db_states (counted exampleBlankStateId) ! 0)) = 0 \<and>
   citiesInState (counted exampleBlankStateId) (db_states (counted exampleBlankStateId) ! 0) = 1"
  by code_simp

section \<open>Salons per category\<close>

lemma counted_category_ids:
  "map ca_id (db_categories (counted db)) = map ca_id (db_categories db)"
  by (simp add: counted_fields(4))

text \<open>
  Claim C4, as amended. After the counting pass, for every Category whose id is the id of
  no other Category and whose counter was absent when loaded, \<^verbatim>\<open>salon_count\<close> (read
  as 0 when no increment has set it) is the number of Businesses whose comma-split
  \<^verbatim>\<open>category_ids\<close> contains the Category's id, provided no Business lists a category
  id more than once.
\<close>

theorem category_salon_count:
  assumes "distinct (map ca_id (db_categories db))"
    and "i < length (db_categories db)"
    and "ca_salon_count (db_categories db ! i) = None"
    and "list_all noRepeatedCategory (db_beautySalons db)"
  shows "orZero (ca_salon_count (db_categories (counted db) ! i)) =
         salonsListing (counted db) (db_categories (counted db) ! i)"
proof -
  let ?km = "categoriesMapOf db"
  let ?k = "ca_id (db_categories db ! i)"
  let ?rs = "db_beautySalons (resolved db)"
  have key: "map_of ?km k = Some i \<longleftrightarrow> k = ?k" for k
    using newMap_distinct_iff[OF assms(1), of i k] assms(2) by (simp add: categoriesMapOf_def)
  have "map ca_id (db_categories (counted db)) ! i = map ca_id (db_categories db) ! i"
    by (simp only: counted_category_ids)
  moreover have "i < length (db_categories (counted db))"
    using assms(2) by (simp add: counted_fields(4))
  ultimately have id: "ca_id (db_categories (counted db) ! i) = ?k"
    using assms(2) by (simp only: nth_map)
  have cats: "map (\<lambda>s. splitIds (bs_category_ids s)) ?rs =
              map (\<lambda>s. splitIds (bs_category_ids s)) (db_beautySalons db)"
    by (simp add: resolved_fields(4))
  have "orZero (ca_salon_count (db_categories (counted db) ! i)) =
        sum_list (map (\<lambda>s. length (filter (\<lambda>k. k = ?k) (splitIds (bs_category_ids s)))) ?rs)"
    using foldl_countCategories_count[OF assms(2), of ?km ?rs] assms(3)
    by (simp add: counted_fields(4) orZero_def key)
  also have "\<dots> = sum_list (map (\<lambda>ids. length (filter (\<lambda>k. k = ?k) ids))
                        (map (\<lambda>s. splitIds (bs_category_ids s)) ?rs))"
    by (simp add: comp_def)
  also have "\<dots> = sum_list (map (\<lambda>ids. length (filter (\<lambda>k. k = ?k) ids))
                        (map (\<lambda>s. splitIds (bs_category_ids s)) (db_beautySalons db)))"
    by (simp only: cats)
  also have "\<dots> = sum_list (map (\<lambda>s. if ?k \<in> set (splitIds (bs_category_ids s)) then 1 else 0)
                        (db_beautySalons db))"
    using assms(4)
    by (auto simp: comp_def list_all_iff noRepeatedCategory_def length_filter_eq_distinct
             intro!: arg_cong[where f = sum_list] map_cong)
  also have "\<dots> = length (filter (\<lambda>s. ?k \<in> set (splitIds (bs_category_ids s)))
                        (db_beautySalons db))"
    by (rule sum_list_indicator)
  also have "\<dots> = length (filter (\<lambda>ids. ?k \<in> set ids)
                        (map (\<lambda>s. splitIds (bs_category_ids s)) (db_beautySalons db)))"
    by (simp add: filter_map comp_def)
  also have "\<dots> = length (filter (\<lambda>ids. ?k \<in> set ids)
                        (map (\<lambda>s. splitIds (bs_category_ids s)) ?rs))"
    by (simp only: cats)
  also have "\<dots> = salonsListing (counted db) (db_categories (counted db) ! i)"
    by (simp add: salonsListing_def id counted_fields(1) filter_map comp_def)
  finally show ?thesis .
qed

text \<open>The second Category of the example is listed by two of the three Businesses.\<close>

theorem category_salon_count_witness:
  "orZero (ca_salon_count (db_categories (counted exampleCategories) ! 1)) = 2 \<and>
   salonsListing (counted exampleCategories) (db_categories (counted exampleCategories) ! 1) = 2"
proof -
  have h: "distinct (map ca_id (db_categories exampleCategories))"
    "1 < length (db_categories exampleCategories)"
    "ca_salon_count (db_categories exampleCategories ! 1) = None"
    "list_all noRepeatedCategory (db_beautySalons exampleCategories)"
    by code_simp+
  have "salonsListing (counted exampleCategories)
          (db_categories (counted exampleCategories) ! 1) = 2"
    by code_simp
  with category_salon_count[OF h] show ?thesis by simp
qed

text \<open>
  Claim C4 as stated fails for a Business that lists a category id twice: with
  \<^verbatim>\<open>category_ids\<close> \<^verbatim>\<open>"3,3"\<close> the one Business adds two to the counter of Category 3.
\<close>

theorem category_count_repeated_id_counterexample:
  "orZero (ca_salon_count (db_categories (counted exampleRepeatedCategory) ! 0)) = 2 \<and>
   salonsListing (counted exampleRepeatedCategory)
     (db_categories (counted exampleRepeatedCategory) ! 0) = 1"
  by code_simp

section \<open>The resolution of one salon\<close>

lemma infer_idle:
  "truthy (bs_state_id s) \<Longrightarrow> truthy (bs_state_name s) \<Longrightarrow> inferStateFromAddress sm sts s = s"
  by (simp add: inferStateFromAddress_def falsy_iff split: option.splits)

lemma extract_state_id:
  "truthy (bs_state_id s) \<Longrightarrow>
   bs_state_id (extractCityFromAddress cm cs sm sts s) = bs_state_id s"
  by (simp add: extractCityFromAddress_def Let_def falsy_iff split: option.splits prod.splits)

lemma extract_state_name:
  "truthy (bs_state_id s) \<Longrightarrow>
   bs_state_name (extractCityFromAddress cm cs sm sts s) = bs_state_name s"
  by (simp add: extractCityFromAddress_def Let_def falsy_iff split: option.splits prod.splits)

lemma extract_match:
  assumes "bs_address s = Some a" "a \<noteq> []" "falsy (bs_city_name s)"
    and "length (addressParts a) \<ge> 3"
    and "findCityByName (mapEntries cm cs) (addressParts a ! (length (addressParts a) - 3)) =
           Some (k, c)"
  shows "bs_city_id (extractCityFromAddress cm cs sm sts s) = Some k \<and>
         bs_city_name (extractCityFromAddress cm cs sm sts s) = Some (ci_city c)"
  using assms by (simp add: extractCityFromAddress_def Let_def split: option.splits)

lemma assign_resolved:
  assumes "bs_city_id s = Some cid" "cid \<noteq> []" "mapGet cm cs cid = Some city"
    and "ci_state_id city \<noteq> []" "mapGet sm sts (ci_state_id city) = Some state"
  shows "assignByCityId cm cs sm sts s =
         s\<lparr>bs_city_name := Some (ci_city city), bs_state_id := Some (ci_state_id city),
           bs_state_name := Some (st_state state)\<rparr>"
  using assms by (simp add: assignByCityId_def lookupTruthy_def)

lemma resolveSalon_city_state:
  assumes "bs_city_id s = Some cid" "cid \<noteq> []" "mapGet cm cs cid = Some city"
    and "ci_state_id city \<noteq> []" "mapGet sm sts (ci_state_id city) = Some state"
    and "st_state state \<noteq> []"
  shows "bs_state_id (resolveSalon cm cs sm sts s) = Some (ci_state_id city)"
    and "bs_state_name (resolveSalon cm cs sm sts s) = Some (st_state state)"
proof -
  let ?s1 = "assignByCityId cm cs sm sts s"
  have s1: "bs_state_id ?s1 = Some (ci_state_id city)" "bs_state_name ?s1 = Some (st_state state)"
    by (simp_all add: assign_resolved[OF assms(1-5)])
  then have t: "truthy (bs_state_id ?s1)" "truthy (bs_state_name ?s1)"
    using assms(4,6) by (simp_all add: truthy_def)
  then have "inferStateFromAddress sm sts ?s1 = ?s1" by (rule infer_idle)
  then show "bs_state_id (resolveSalon cm cs sm sts s) = Some (ci_state_id city)"
    and "bs_state_name (resolveSalon cm cs sm sts s) = Some (st_state state)"
    using t(1) s1 by (simp_all add: resolveSalon_def extract_state_id extract_state_name)
qed

text \<open>
  Claim C1, as amended. For every Business whose \<^verbatim>\<open>city_id\<close> is not empty and
  resolves to a City whose \<^verbatim>\<open>state_id\<close> is not empty and resolves to a State with a
  non-empty name, after the resolution pass the Business's \<^verbatim>\<open>state_id\<close> equals that
  City's \<^verbatim>\<open>state_id\<close>, whatever \<^verbatim>\<open>state_id\<close> the Business was loaded with.
\<close>

theorem city_state_wins:
  assumes "i < length (db_beautySalons db)"
    and "bs_city_id (db_beautySalons db ! i) = Some cid" and "cid \<noteq> []"
    and "mapGet (citiesMapOf db) (db_cities db) cid = Some city"
    and "ci_state_id city \<noteq> []"
    and "mapGet (statesMapOf db) (db_states db) (ci_state_id city) = Some state"
    and "st_state state \<noteq> []"
  shows "bs_state_id (db_beautySalons (resolved db) ! i) = Some (ci_state_id city)"
proof -
  let ?sm = "statesMapOf db" and ?sts = "db_states db"
  let ?cs1 = "map (addStateName ?sm ?sts) (db_cities db)"
  have c: "mapGet (citiesMapOf db) ?cs1 cid = Some (addStateName ?sm ?sts city)"
    by (simp add: mapGet_map assms(4))
  have "bs_state_id (resolveSalon (citiesMapOf db) ?cs1 ?sm ?sts (db_beautySalons db ! i)) =
        Some (ci_state_id (addStateName ?sm ?sts city))"
    by (rule resolveSalon_city_state(1)[OF assms(2,3) c, where state = state])
       (simp_all add: assms(5,6,7))
  then show ?thesis
    using assms(1) by (simp add: resolved_fields(4))
qed

text \<open>A Business loaded with the state TX1, in a City of the state IL1.\<close>

theorem city_state_wins_witness:
  "bs_state_id (db_beautySalons exampleCityWins ! 0) = Some ''TX1'' \<and>
   bs_state_id (db_beautySalons (resolved exampleCityWins) ! 0) = Some ''IL1''"
proof -
  have h: "0 < length (db_beautySalons exampleCityWins)"
    "bs_city_id (db_beautySalons exampleCityWins ! 0) = Some ''1''"
    "''1'' \<noteq> []"
    "mapGet (citiesMapOf exampleCityWins) (db_cities exampleCityWins) ''1'' =
       Some (mkCity ''1'' ''Springfield'' ''IL1'')"
    "ci_state_id (mkCity ''1'' ''Springfield'' ''IL1'') \<noteq> []"
    "mapGet (statesMapOf exampleCityWins) (db_states exampleCityWins)
       (ci_state_id (mkCity ''1'' ''Springfield'' ''IL1'')) = Some (mkState ''IL1'' ''Illinois'')"
    "st_state (mkState ''IL1'' ''Illinois'') \<noteq> []"
    by code_simp+
  have "bs_state_id (db_beautySalons exampleCityWins ! 0) = Some ''TX1''" by code_simp
  with city_state_wins[OF h] show ?thesis by (simp add: mkCity_def)
qed

text \<open>
  Claim C1 as stated fails in two ways. The first Business is in a City whose State S1
  has an empty name: the trigger \<^verbatim>\<open>!salon.state_id || !salon.state_name\<close> fires and the
  address gives the Business the state S2. The second Business is in a City whose
  \<^verbatim>\<open>state_id\<close> XX is in no State: the Business keeps the TX1 it was loaded with.
\<close>

theorem city_state_counterexample:
  "lookupTruthy (citiesMapOf exampleStateOverride) (db_cities exampleStateOverride)
     (bs_city_id (db_beautySalons exampleStateOverride ! 0)) =
     Some (mkCity ''1'' ''Springfield'' ''S1'') \<and>
   lookupTruthy (statesMapOf exampleStateOverride) (db_states exampleStateOverride) (Some ''S1'') =
     Some (mkState ''S1'' []) \<and>
   bs_state_id (db_beautySalons (resolved exampleStateOverride) ! 0) \<noteq> Some ''S1'' \<and>
   lookupTruthy (citiesMapOf exampleStateOverride) (db_cities exampleStateOverride)
     (bs_city_id (db_beautySalons exampleStateOverride ! 1)) =
     Some (mkCity ''2'' ''Austin'' ''XX'') \<and>
   bs_state_id (db_beautySalons (resolved exampleStateOverride) ! 1) \<noteq> Some ''XX''"
  by code_simp

section \<open>Running the resolution pass twice\<close>























section \<open>Inference from the address\<close>

text \<open>
  Claim C10. For a Business with a non-empty address, the state-abbreviation inference
  runs whenever \<^verbatim>\<open>state_id\<close> or \<^verbatim>\<open>state_name\<close> is unset after the lookup by
  \<^verbatim>\<open>city_id\<close>: when the second-to-last segment of the address ends in a two-character
  token and a State's name starts with it, the first such State of the map replaces the
  Business's \<^verbatim>\<open>state_id\<close> and \<^verbatim>\<open>state_name\<close>, also a \<^verbatim>\<open>state_id\<close> that was loaded.
\<close>

theorem abbreviation_trigger:
  assumes "bs_address s = Some a" and "a \<noteq> []"
    and "falsy (bs_state_id (assignByCityId cm cs sm sts s)) \<or>
         falsy (bs_state_name (assignByCityId cm cs sm sts s))"
    and "stateAbbreviation (addressParts a) = Some abbr"
    and "findStateByAbbreviation (mapEntries sm sts) abbr = Some (k, state)"
    and "k \<noteq> []"
  shows "bs_state_id (resolveSalon cm cs sm sts s) = Some k \<and>
         bs_state_name (resolveSalon cm cs sm sts s) = Some (st_state state)"
proof -
  let ?s1 = "assignByCityId cm cs sm sts s"
  have addr: "bs_address ?s1 = Some a"
    using assms(1) by (simp add: assignByCityId_def Let_def split: option.splits)
  have i: "inferStateFromAddress sm sts ?s1 =
           ?s1\<lparr>bs_state_id := Some k, bs_state_name := Some (st_state state)\<rparr>"
    using assms(2-5) addr by (simp add: inferStateFromAddress_def)
  have "truthy (bs_state_id (inferStateFromAddress sm sts ?s1))"
    using assms(6) by (simp add: i truthy_def)
  then show ?thesis
    by (simp add: resolveSalon_def extract_state_id extract_state_name) (simp add: i)
qed

text \<open>
  A Business loaded with the \<^verbatim>\<open>state_id\<close> ZZ, which no State has, and no state name:
  the address heuristic replaces ZZ by IL1, the first State whose name starts with IL.
\<close>

theorem abbreviation_trigger_witness:
  "bs_state_id peoriaSalon = Some ''ZZ'' \<and>
   map_of (newMap (map st_id peoriaStates)) ''ZZ'' = None \<and>
   bs_state_id (resolveSalon (newMap []) [] (newMap (map st_id peoriaStates)) peoriaStates
                  peoriaSalon) = Some ''IL1'' \<and>
   bs_state_name (resolveSalon (newMap []) [] (newMap (map st_id peoriaStates)) peoriaStates
                    peoriaSalon) = Some ''Illinois''"
proof -
  have h: "bs_address peoriaSalon = Some ''12 Oak Ave, Peoria, IL, USA''"
    "''12 Oak Ave, Peoria, IL, USA'' \<noteq> []"
    "falsy (bs_state_id (assignByCityId (newMap []) [] (newMap (map st_id peoriaStates))
                           peoriaStates peoriaSalon)) \<or>
     falsy (bs_state_name (assignByCityId (newMap []) [] (newMap (map st_id peoriaStates))
                             peoriaStates peoriaSalon))"
    "stateAbbreviation (addressParts ''12 Oak Ave, Peoria, IL, USA'') = Some ''IL''"
    "findStateByAbbreviation (mapEntries (newMap (map st_id peoriaStates)) peoriaStates) ''IL'' =
       Some (''IL1'', mkState ''IL1'' ''Illinois'')"
    "''IL1'' \<noteq> []"
    by code_simp+
  have "bs_state_id peoriaSalon = Some ''ZZ''"
    "map_of (newMap (map st_id peoriaStates)) ''ZZ'' = None"
    by code_simp+
  with abbreviation_trigger[OF h] show ?thesis by (simp add: mkState_def)
qed

lemma newYork_abbreviation:
  "stateAbbreviation (addressParts ''1 A St, Suite 2, New York, NY'') = None"
  by code_simp

text \<open>
  Claim C3, as amended. For the input Business with the address
  \<^verbatim>\<open>"1 A St, Suite 2, New York, NY"\<close> and no City in the City collection, the
  address-based inference leaves the Business's \<^verbatim>\<open>state_id\<close> unset, whatever States are
  present: the second-to-last segment is \<^verbatim>\<open>New York\<close>, and its last token \<^verbatim>\<open>York\<close> is
  not two characters long.
\<close>

theorem new_york_address_unresolved:
  "map bs_state_id (db_beautySalons (resolved
      \<lparr>db_beautySalons = [newYorkSalon i t], db_cities = [], db_states = sts,
       db_categories = cats\<rparr>)) = [None]"
proof -
  have a: "assignByCityId cm [] sm sts (newYorkSalon i t) = newYorkSalon i t" for cm sm
    by (simp add: assignByCityId_def lookupTruthy_def newYorkSalon_def blankSalon_def)
  have b: "inferStateFromAddress sm sts (newYorkSalon i t) = newYorkSalon i t" for sm
    by (simp add: inferStateFromAddress_def newYorkSalon_def newYork_abbreviation)
  have c: "extractCityFromAddress [] [] sm sts (newYorkSalon i t) = newYorkSalon i t" for sm
    by (simp add: extractCityFromAddress_def mapEntries_def findCityByName_def Let_def
             split: option.splits)
  show ?thesis
    by (simp add: resolved_fields(4) citiesMapOf_def newMap_Nil resolveSalon_def a b c)
       (simp add: newYorkSalon_def blankSalon_def)
qed

text \<open>With the State NY1 of the claim present, the Business does not get the state NY1.\<close>

theorem new_york_address_counterexample:
  "map bs_state_id (db_beautySalons (resolved
      \<lparr>db_beautySalons = [newYorkSalon ''1'' ''Salon''], db_cities = [],
       db_states = [mkState ''NY1'' ''New York''], db_categories = []\<rparr>)) \<noteq> [Some ''NY1'']"
  by code_simp

lemma springfield_parts:
  "addressParts ''123 Main St, Springfield, IL, USA'' =
     [''123 Main St'', ''Springfield'', ''IL'', ''USA'']"
  by code_simp

lemma lower_springfield: "toLowerCase ''Springfield'' = ''springfield''"
  by code_simp

text \<open>With unique ids the entries of a map are the objects of the array, in its order.\<close>

lemma mapSet_fresh: "k \<notin> fst ` set m \<Longrightarrow> mapSet m k v = m @ [(k, v)]"
  by (induction m k v rule: mapSet.induct) auto

lemma foldl_mapSet_distinct:
  "distinct (map fst m @ map fst kvs) \<Longrightarrow> foldl (\<lambda>m (k, v). mapSet m k v) m kvs = m @ kvs"
proof (induction kvs arbitrary: m)
  case Nil
  show ?case by simp
next
  case (Cons kv kvs)
  obtain k v where kv: "kv = (k, v)" by (cases kv)
  from Cons.prems have fresh: "k \<notin> fst ` set m" by (auto simp: kv)
  from Cons.prems have "distinct (map fst (m @ [(k, v)]) @ map fst kvs)" by (auto simp: kv)
  from Cons.IH[OF this] show ?case by (simp add: kv mapSet_fresh[OF fresh])
qed

lemma newMap_distinct_eq: "distinct ids \<Longrightarrow> newMap ids = zip ids [0..<length ids]"
  unfolding newMap_def by (subst foldl_mapSet_distinct) simp_all

lemma mapEntries_newMap:
  assumes "distinct (map f arr)"
  shows "mapEntries (newMap (map f arr)) arr = map (\<lambda>x. (f x, x)) arr"
proof -
  let ?z = "zip (map f arr) [0..<length arr]"
  have "\<forall>p\<in>set ?z. snd p < length arr"
    by (auto dest: set_zip_rightD)
  then have keep: "filter (\<lambda>(k, i). i < length arr) ?z = ?z"
    by (auto simp: filter_id_conv)
  have "map (\<lambda>(k, i). (k, arr ! i)) ?z = map (\<lambda>x. (f x, x)) arr"
    by (rule nth_equalityI) simp_all
  then have "mapEntries ?z arr = map (\<lambda>x. (f x, x)) arr"
    by (simp only: mapEntries_def keep)
  with newMap_distinct_eq[OF assms] show ?thesis by simp
qed

lemma find_append:
  "find P (xs @ ys) = (case find P xs of None \<Rightarrow> find P ys | Some x \<Rightarrow> Some x)"
  by (induction xs) auto

lemma find_none: "(\<forall>x\<in>set xs. \<not> P x) \<Longrightarrow> find P xs = None"
  by (induction xs) auto

text \<open>
  Claim C9, as amended. The Business with id 5, an empty \<^verbatim>\<open>city_id\<close> and the address
  \<^verbatim>\<open>"123 Main St, Springfield, IL, USA"\<close>, in a dataset whose City ids are unique,
  with the City 9 named Springfield present and no City listed before it whose name is
  Springfield in any letter case, resolves to the \<^verbatim>\<open>city_id\<close> 9 and the city name
  Springfield, whatever other Businesses, Cities, States and Categories are present.
\<close>

theorem springfield_city_from_address:
  assumes "distinct (map ci_id (db_cities db))"
    and "db_cities db = before @ city # after"
    and "ci_id city = ''9''" and "ci_city city = ''Springfield''"
    and "\<forall>c\<in>set before. toLowerCase (ci_city c) \<noteq> ''springfield''"
    and "i < length (db_beautySalons db)"
    and "db_beautySalons db ! i = springfieldSalon t"
  shows "bs_city_id (db_beautySalons (resolved db) ! i) = Some ''9'' \<and>
         bs_city_name (db_beautySalons (resolved db) ! i) = Some ''Springfield''"
proof -
  let ?sm = "statesMapOf db" and ?sts = "db_states db" and ?cm = "citiesMapOf db"
  let ?add = "addStateName ?sm ?sts"
  let ?cs1 = "map ?add (db_cities db)"
  define s where "s = springfieldSalon t"
  define B where "B = map (\<lambda>x. (ci_id x, x)) (map ?add before)"
  define A where "A = map (\<lambda>x. (ci_id x, x)) (map ?add after)"
  have ids: "map ci_id ?cs1 = map ci_id (db_cities db)" by (simp add: comp_def)
  have cm: "?cm = newMap (map ci_id ?cs1)" by (simp only: citiesMapOf_def ids)
  have "mapEntries (newMap (map ci_id ?cs1)) ?cs1 = map (\<lambda>x. (ci_id x, x)) ?cs1"
    by (rule mapEntries_newMap) (simp only: ids assms(1))
  also have "\<dots> = B @ (''9'', ?add city) # A"
    by (simp add: assms(2,3) B_def A_def)
  finally have entries: "mapEntries ?cm ?cs1 = B @ (''9'', ?add city) # A"
    by (simp only: cm)
  have "find (\<lambda>(key, c). toLowerCase (ci_city c) = toLowerCase ''Springfield'') B = None"
    unfolding B_def by (rule find_none) (use assms(5) in \<open>auto simp: lower_springfield\<close>)
  then have f: "findCityByName (mapEntries ?cm ?cs1) ''Springfield'' = Some (''9'', ?add city)"
    by (simp add: findCityByName_def entries find_append assms(4))
  have sf: "bs_address s = Some ''123 Main St, Springfield, IL, USA''" "bs_city_id s = Some []"
    "falsy (bs_city_name s)"
    by (simp_all add: s_def springfieldSalon_def blankSalon_def falsy_def)
  have a: "assignByCityId ?cm ?cs1 ?sm ?sts s = s"
    by (simp add: assignByCityId_def lookupTruthy_def sf(2))
  have "bs_city_id (resolveSalon ?cm ?cs1 ?sm ?sts s) = Some ''9'' \<and>
        bs_city_name (resolveSalon ?cm ?cs1 ?sm ?sts s) = Some ''Springfield''"
    unfolding resolveSalon_def
    using extract_match[where s = "inferStateFromAddress ?sm ?sts s"
        and a = "''123 Main St, Springfield, IL, USA''"
        and cm = ?cm and cs = ?cs1 and k = "''9''"
        and c = "?add city" and sm = ?sm and sts = ?sts]
    by (simp add: a sf springfield_parts f assms(4))
  then show ?thesis
    using assms(6,7) by (simp add: resolved_fields(4) s_def)
qed

text \<open>
  The City 9 is the second of three Cities, after Peoria and before another Springfield;
  the Business is the second of two.
\<close>

theorem springfield_city_witness:
  "bs_city_id (db_beautySalons (resolved exampleSpringfield) ! 1) = Some ''9'' \<and>
   bs_city_name (db_beautySalons (resolved exampleSpringfield) ! 1) = Some ''Springfield''"
proof -
  have h: "distinct (map ci_id (db_cities exampleSpringfield))"
    "db_cities exampleSpringfield =
       [mkCity ''7'' ''Peoria'' ''IL1''] @ mkCity ''9'' ''Springfield'' ''IL1'' #
       [mkCity ''12'' ''Springfield'' ''MO1'']"
    "ci_id (mkCity ''9'' ''Springfield'' ''IL1'') = ''9''"
    "ci_city (mkCity ''9'' ''Springfield'' ''IL1'') = ''Springfield''"
    "\<forall>c\<in>set [mkCity ''7'' ''Peoria'' ''IL1'']. toLowerCase (ci_city c) \<noteq> ''springfield''"
    "1 < length (db_beautySalons exampleSpringfield)"
    "db_beautySalons exampleSpringfield ! 1 = springfieldSalon ''Salon''"
    by code_simp+
  from springfield_city_from_address[OF h] show ?thesis .
qed

text \<open>
  Claim C9 as stated, with the City 9 present, fails when a City of the same name is
  listed before it: the loop over the map stops at the first name match, here the City
  12 of another state.
\<close>

theorem springfield_city_counterexample:
  "mkCity ''9'' ''Springfield'' ''IL1'' \<in> set (db_cities exampleTwoSpringfields) \<and>
   bs_city_id (db_beautySalons (resolved exampleTwoSpringfields) ! 0) \<noteq> Some ''9''"
  by code_simp

section \<open>Slugs\<close>

text \<open>
  What \<^verbatim>\<open>slugify\<close> does to a string that ends in a hyphen and decimal digits: the
  digits are the last hyphen-separated segment of the slug.
\<close>

lemma digit_notSpace: "d \<in> set ''0123456789'' \<Longrightarrow> \<not> isSpace d"
  by (auto simp: isSpace_def)

lemma digit_allowed: "d \<in> set ''0123456789'' \<Longrightarrow> allowedChar d"
  by (auto simp: allowedChar_def isWordChar_def)

lemma digit_not_hyphen: "d \<in> set ''0123456789'' \<Longrightarrow> d \<noteq> CHR ''-''"
  by auto

lemma lower_unmapped:
  assumes "c \<notin> set ''ABCDEFGHIJKLMNOPQRSTUVWXYZ''"
  shows "toLowerCase [c] = [c]"
proof -
  have "map fst (zip ''ABCDEFGHIJKLMNOPQRSTUVWXYZ'' ''abcdefghijklmnopqrstuvwxyz'') =
        ''ABCDEFGHIJKLMNOPQRSTUVWXYZ''"
    by (rule map_fst_zip) simp
  then have "fst ` set (zip ''ABCDEFGHIJKLMNOPQRSTUVWXYZ'' ''abcdefghijklmnopqrstuvwxyz'') =
        set ''ABCDEFGHIJKLMNOPQRSTUVWXYZ''"
    by (metis set_map)
  with assms have "map_of (zip ''ABCDEFGHIJKLMNOPQRSTUVWXYZ'' ''abcdefghijklmnopqrstuvwxyz'') c = None"
    by (simp only: map_of_eq_None_iff not_False_eq_True)
  then show ?thesis by (simp only: toLowerCase_def list.map option.case)
qed

lemma digit_not_upper: "d \<in> set ''0123456789'' \<Longrightarrow> d \<notin> set ''ABCDEFGHIJKLMNOPQRSTUVWXYZ''"
  by auto

lemma lower_digit: "d \<in> set ''0123456789'' \<Longrightarrow> toLowerCase [d] = [d]"
  by (rule lower_unmapped) (rule digit_not_upper)

lemma toLowerCase_hyphen: "toLowerCase ''-'' = ''-''"
  by (rule lower_unmapped) simp

lemma toLowerCase_append: "toLowerCase (xs @ ys) = toLowerCase xs @ toLowerCase ys"
  by (simp add: toLowerCase_def)

lemma toLowerCase_Cons: "toLowerCase (x # xs) = toLowerCase [x] @ toLowerCase xs"
  by (simp add: toLowerCase_def)

lemma toLowerCase_digits: "set D \<subseteq> set ''0123456789'' \<Longrightarrow> toLowerCase D = D"
proof (induction D)
  case Nil
  show ?case by (simp add: toLowerCase_def)
next
  case (Cons d D)
  then have "d \<in> set ''0123456789''" "set D \<subseteq> set ''0123456789''" by auto
  with Cons.IH show ?case
    using toLowerCase_Cons[of d D] lower_digit[of d] by simp
qed

lemma collapseSpaces_id: "(\<And>x. x \<in> set D \<Longrightarrow> \<not> isSpace x) \<Longrightarrow> collapseSpaces D = D"
  by (induction D) auto

lemma isSpace_space: "isSpace CHR '' ''"
  by (simp add: isSpace_def)

lemma collapseSpaces_tail:
  assumes "\<And>x. x \<in> set D \<Longrightarrow> \<not> isSpace x"
  shows "\<exists>Z. collapseSpaces (Y @ CHR '' '' # D) = Z @ CHR ''-'' # D"
proof (induction Y rule: collapseSpaces.induct)
  case 1
  have "dropWhile isSpace D = D" using assms by simp
  then show ?case
    using collapseSpaces_id[of D] assms by (simp add: isSpace_space)
next
  case (2 c cs)
  show ?case
  proof (cases "isSpace c")
    case False
    with 2(2) obtain Z where "collapseSpaces (cs @ CHR '' '' # D) = Z @ CHR ''-'' # D" by blast
    with False have "collapseSpaces ((c # cs) @ CHR '' '' # D) = (c # Z) @ CHR ''-'' # D" by simp
    then show ?thesis by blast
  next
    case True
    show ?thesis
    proof (cases "\<forall>x\<in>set cs. isSpace x")
      case all: True
      have "dropWhile isSpace (cs @ CHR '' '' # D) = D"
        using all assms by (simp add: dropWhile_append isSpace_space)
      with True have "collapseSpaces ((c # cs) @ CHR '' '' # D) = [] @ CHR ''-'' # D"
        using collapseSpaces_id[of D] assms by simp
      then show ?thesis by blast
    next
      case False
      then obtain x where "x \<in> set cs" "\<not> isSpace x" by blast
      then have "dropWhile isSpace (cs @ CHR '' '' # D) = dropWhile isSpace cs @ CHR '' '' # D"
        by (rule dropWhile_append1)
      moreover from 2(1)[OF True] obtain Z where
        "collapseSpaces (dropWhile isSpace cs @ CHR '' '' # D) = Z @ CHR ''-'' # D" by blast
      ultimately have "collapseSpaces ((c # cs) @ CHR '' '' # D) = (CHR ''-'' # Z) @ CHR ''-'' # D"
        using True by simp
      then show ?thesis by blast
    qed
  qed
qed

lemma trim_tail:
  assumes "D \<noteq> []" and "\<And>x. x \<in> set D \<Longrightarrow> \<not> isSpace x"
  shows "trim (S @ CHR '' '' # D) =
         (if \<forall>x\<in>set S. isSpace x then D else dropWhile isSpace S @ CHR '' '' # D)"
proof -
  obtain B l where Bl: "D = B @ [l]"
    using assms(1) by (cases D rule: rev_cases) auto
  then have l: "\<not> isSpace l" using assms(2) by simp
  have keep: "rev (dropWhile isSpace (rev (W @ D))) = W @ D" for W
    using l by (simp add: Bl)
  show ?thesis
  proof (cases "\<forall>x\<in>set S. isSpace x")
    case True
    then have "dropWhile isSpace (S @ CHR '' '' # D) = D"
      using assms by (simp add: dropWhile_append isSpace_space)
    with True keep[of "[]"] show ?thesis by (simp add: trim_def)
  next
    case False
    then obtain x where "x \<in> set S" "\<not> isSpace x" by blast
    then have "dropWhile isSpace (S @ CHR '' '' # D) = dropWhile isSpace S @ CHR '' '' # D"
      by (rule dropWhile_append1)
    then have "dropWhile isSpace (S @ CHR '' '' # D) = (dropWhile isSpace S @ '' '') @ D"
      by simp
    with False keep[of "dropWhile isSpace S @ '' ''"] show ?thesis by (simp add: trim_def)
  qed
qed

lemma appendChar_digit:
  assumes "charMap d = None" "d \<in> set ''0123456789''"
  shows "appendChar charMap d = [d]"
  using assms digit_allowed[of d] digit_not_hyphen[of d] by (simp add: appendChar_def Let_def)

lemma appendChar_hyphen:
  assumes "charMap CHR ''-'' = None"
  shows "appendChar charMap CHR ''-'' = '' ''"
  using assms by (simp add: appendChar_def Let_def allowedChar_def isSpace_def)

lemma concat_appendChar_digits:
  assumes "\<And>d. d \<in> set ''0123456789'' \<Longrightarrow> charMap d = None" "set D \<subseteq> set ''0123456789''"
  shows "concat (map (appendChar charMap) D) = D"
  using assms(2)
proof (induction D)
  case Nil
  show ?case by simp
next
  case (Cons d D)
  then have "d \<in> set ''0123456789''" "set D \<subseteq> set ''0123456789''" by auto
  with Cons.IH assms(1) show ?case by (simp add: appendChar_digit)
qed

lemma slugifyLower_tail:
  assumes map0: "\<And>d. d \<in> set ''0123456789-'' \<Longrightarrow> charMap d = None"
    and D: "isDigits D"
  shows "slugifyLower charMap (X @ ''-'' @ D) = D \<or>
         (\<exists>Z. slugifyLower charMap (X @ ''-'' @ D) = Z @ CHR ''-'' # D)"
proof -
  have dig: "set D \<subseteq> set ''0123456789''" and ne: "D \<noteq> []"
    using D by (simp_all add: isDigits_def)
  have nsp: "\<not> isSpace x" if "x \<in> set D" for x
    using that dig digit_notSpace[of x] by blast
  let ?S = "concat (map (appendChar charMap) X)"
  have m1: "charMap d = None" if "d \<in> set ''0123456789''" for d
    using that map0[of d] by auto
  have step1: "concat (map (appendChar charMap) (X @ ''-'' @ D)) = ?S @ CHR '' '' # D"
    using map0[of "CHR ''-''"] concat_appendChar_digits[of charMap D, OF m1 dig]
    by (simp add: appendChar_hyphen)
  show ?thesis
  proof (cases "\<forall>x\<in>set ?S. isSpace x")
    case True
    then have "trim (?S @ CHR '' '' # D) = D"
      using trim_tail[OF ne nsp, of ?S] by simp
    then have "slugifyLower charMap (X @ ''-'' @ D) = D"
      using collapseSpaces_id[of D] nsp toLowerCase_digits[OF dig]
      unfolding slugifyLower_def step1 by simp
    then show ?thesis by blast
  next
    case False
    then have t: "trim (?S @ CHR '' '' # D) = dropWhile isSpace ?S @ CHR '' '' # D"
      using trim_tail[OF ne nsp, of ?S] by simp
    obtain Z where "collapseSpaces (dropWhile isSpace ?S @ CHR '' '' # D) = Z @ CHR ''-'' # D"
      using collapseSpaces_tail[of D "dropWhile isSpace ?S"] nsp by blast
    then have "slugifyLower charMap (X @ ''-'' @ D) = toLowerCase (Z @ ''-'' @ D)"
      unfolding slugifyLower_def step1 t by simp
    also have "\<dots> = toLowerCase Z @ toLowerCase ''-'' @ toLowerCase D"
      by (simp only: toLowerCase_append)
    also have "\<dots> = toLowerCase Z @ CHR ''-'' # D"
      by (simp only: toLowerCase_digits[OF dig] toLowerCase_hyphen) simp
    finally show ?thesis by blast
  qed
qed

lemma last_segment:
  assumes "s = D \<or> (\<exists>Z. s = Z @ CHR ''-'' # D)" and "CHR ''-'' \<notin> set D"
  shows "rev (takeWhile (\<lambda>c. c \<noteq> CHR ''-'') (rev s)) = D"
proof -
  have all: "\<forall>c\<in>set (rev D). c \<noteq> CHR ''-''" using assms(2) by auto
  then have D: "takeWhile (\<lambda>c. c \<noteq> CHR ''-'') (rev D) = rev D" by simp
  from assms(1) show ?thesis
  proof
    assume "s = D"
    then show ?thesis by (simp only: D rev_rev_ident)
  next
    assume "\<exists>Z. s = Z @ CHR ''-'' # D"
    then obtain Z where "s = Z @ CHR ''-'' # D" by blast
    then have "rev s = rev D @ CHR ''-'' # rev Z" by simp
    then have "takeWhile (\<lambda>c. c \<noteq> CHR ''-'') (rev s) =
               takeWhile (\<lambda>c. c \<noteq> CHR ''-'') (rev D)"
      by (simp only: takeWhile_tail[of "\<lambda>c. c \<noteq> CHR ''-''" "CHR ''-''" "rev D" "rev Z"] not_not)
    then show ?thesis by (simp only: D rev_rev_ident)
  qed
qed

lemma stateSlug_id: "bs_id (snd (stateSlug f cm cs sm sts s)) = bs_id s"
  by (simp add: stateSlug_def split: option.splits)

lemma stateSlug_title: "bs_title (snd (stateSlug f cm cs sm sts s)) = bs_title s"
  by (simp add: stateSlug_def split: option.splits)

lemma processSalon_slug:
  "ps_slug (snd (processSalon f cm cs sm sts s)) =
     f ((citySlug f s @ ''-'' @ fst (stateSlug f cm cs sm sts s) @ ''-'' @ bs_title s) @
        ''-'' @ bs_id s)"
proof -
  obtain l s1 where p: "stateSlug f cm cs sm sts s = (l, s1)"
    by (cases "stateSlug f cm cs sm sts s")
  then have "bs_id s1 = bs_id s" "bs_title s1 = bs_title s"
    using stateSlug_id[of f cm cs sm sts s] stateSlug_title[of f cm cs sm sts s] by simp_all
  then show ?thesis by (simp add: processSalon_def p)
qed

lemma charMapAscii_digits: "\<forall>d\<in>set ''0123456789-''. charMapAscii d = None"
  by (simp add: charMapAscii_def)

text \<open>
  Claim C5, as amended. For any two Businesses whose ids are distinct non-empty strings
  of decimal digits, the generated slugs differ, for every combination of titles and of
  resolved or unresolved city and state labels (with a \<^verbatim>\<open>slugify\<close> table that has no
  entry for a digit or the hyphen, as the package's has none).
\<close>

theorem slug_unique_for_numeric_ids:
  assumes "\<forall>d\<in>set ''0123456789-''. charMap d = None"
    and "isDigits (bs_id a)" and "isDigits (bs_id b)" and "bs_id a \<noteq> bs_id b"
  shows "ps_slug (snd (processSalon (slugifyLower charMap) citiesMap cities statesMap states a)) \<noteq>
         ps_slug (snd (processSalon (slugifyLower charMap) citiesMap cities statesMap states b))"
proof
  let ?f = "slugifyLower charMap"
  let ?slug = "\<lambda>s. ps_slug (snd (processSalon ?f citiesMap cities statesMap states s))"
  let ?seg = "\<lambda>s. rev (takeWhile (\<lambda>c. c \<noteq> CHR ''-'') (rev s))"
  assume eq: "?slug a = ?slug b"
  have m: "charMap d = None" if "d \<in> set ''0123456789-''" for d
    using assms(1) that by blast
  have seg: "?seg (?slug s) = bs_id s" if "isDigits (bs_id s)" for s
  proof -
    have "CHR ''-'' \<notin> set (bs_id s)"
      using that digit_not_hyphen by (auto simp: isDigits_def)
    moreover have "?slug s = bs_id s \<or> (\<exists>Z. ?slug s = Z @ CHR ''-'' # bs_id s)"
      unfolding processSalon_slug by (rule slugifyLower_tail[OF m that])
    ultimately show ?thesis by (rule last_segment[rotated])
  qed
  from eq have "?seg (?slug a) = ?seg (?slug b)" by (rule arg_cong)
  then have "bs_id a = bs_id b" by (simp only: seg[OF assms(2)] seg[OF assms(3)])
  with assms(4) show False by contradiction
qed

text \<open>The ids 12 and 2, with titles that put the same digits at the end of the slug.\<close>

theorem slug_unique_witness:
  "isDigits ''12'' \<and> isDigits ''2'' \<and>
   ps_slug (snd (processSalon (slugifyLower charMapAscii) [] [] [] [] (blankSalon ''12'' ''Salon''))) \<noteq>
   ps_slug (snd (processSalon (slugifyLower charMapAscii) [] [] [] [] (blankSalon ''2'' ''Salon 1'')))"
proof -
  have h: "isDigits (bs_id (blankSalon ''12'' ''Salon''))"
    "isDigits (bs_id (blankSalon ''2'' ''Salon 1''))"
    "bs_id (blankSalon ''12'' ''Salon'') \<noteq> bs_id (blankSalon ''2'' ''Salon 1'')"
    by (simp_all add: blankSalon_def isDigits_def)
  have "isDigits ''12''" "isDigits ''2''" by (simp_all add: isDigits_def)
  with slug_unique_for_numeric_ids[OF charMapAscii_digits h, of "[]" "[]" "[]" "[]"]
  show ?thesis by simp
qed

text \<open>
  Claim C5 as stated fails for ids that are not numbers: the title \<^verbatim>\<open>Salon-1\<close> with the
  id \<^verbatim>\<open>2\<close> and the title \<^verbatim>\<open>Salon\<close> with the id \<^verbatim>\<open>1-2\<close> are joined to the same string,
  hence to the same slug \<^verbatim>\<open>unknown-city-us-salon-1-2\<close>.
\<close>

theorem slug_collision_counterexample:
  "bs_id (blankSalon ''2'' ''Salon-1'') \<noteq> bs_id (blankSalon ''1-2'' ''Salon'') \<and>
   ps_slug (snd (processSalon (slugifyLower charMapAscii) [] [] [] [] (blankSalon ''2'' ''Salon-1''))) =
   ps_slug (snd (processSalon (slugifyLower charMapAscii) [] [] [] [] (blankSalon ''1-2'' ''Salon'')))"
  by code_simp

section \<open>What the projection build writes\<close>

lemma stateSlug_writes:
  "(snd (stateSlug f cm cs sm sts s))\<lparr>bs_state_name := None\<rparr> = s\<lparr>bs_state_name := None\<rparr>"
  by (simp add: stateSlug_def split: option.splits)

lemma stateSlug_truthy:
  "truthy (bs_state_name s) \<Longrightarrow> snd (stateSlug f cm cs sm sts s) = s"
  by (simp add: stateSlug_def)

lemma processSalon_fst: "fst (processSalon f cm cs sm sts s) = snd (stateSlug f cm cs sm sts s)"
  by (simp add: processSalon_def split: prod.splits)

lemma projection_salons:
  "db_beautySalons (fst (projection f cm sm db)) =
     map (\<lambda>s. snd (stateSlug f cm (db_cities db) sm (db_states db) s)) (db_beautySalons db)"
  by (simp add: projection_def Let_def processSalon_fst comp_def)

lemma stateSlug_fill:
  "snd (stateSlug f cm cs sm sts s) = fillStateName cm cs sm sts s"
  by (simp add: stateSlug_def fillStateName_def missingStateName_def split: option.splits)

text \<open>
  Claim C6, as amended. The projection build leaves every field of every raw City, State
  and Category record unchanged, and every field of every raw Business record except
  \<^verbatim>\<open>state_name\<close>: a Business that has a non-empty \<^verbatim>\<open>state_name\<close> is left
  unchanged as a whole, and a Business without one gets the name of the State of its
  city when its \<^verbatim>\<open>city_id\<close> resolves to a City whose \<^verbatim>\<open>state_id\<close> resolves, and
  is left unchanged otherwise. The output does not feed back: at the end of the run the
  collections are what the resolution and the counting made of them, with these state
  names filled in, whatever the projection computes with \<^verbatim>\<open>slugify\<close>.
\<close>

theorem projection_writes_only_state_name:
  "db_cities (fst (projection slugify citiesMap statesMap db)) = db_cities db \<and>
   db_states (fst (projection slugify citiesMap statesMap db)) = db_states db \<and>
   db_categories (fst (projection slugify citiesMap statesMap db)) = db_categories db \<and>
   map (\<lambda>salon. salon\<lparr>bs_state_name := None\<rparr>)
     (db_beautySalons (fst (projection slugify citiesMap statesMap db))) =
   map (\<lambda>salon. salon\<lparr>bs_state_name := None\<rparr>) (db_beautySalons db) \<and>
   (\<forall>i<length (db_beautySalons db).
      truthy (bs_state_name (db_beautySalons db ! i)) \<longrightarrow>
      db_beautySalons (fst (projection slugify citiesMap statesMap db)) ! i =
      db_beautySalons db ! i) \<and>
   map bs_state_name (db_beautySalons (fst (projection slugify citiesMap statesMap db))) =
   map (\<lambda>salon. case missingStateName citiesMap (db_cities db) statesMap (db_states db) salon of
                   None \<Rightarrow> bs_state_name salon
                 | Some name \<Rightarrow> Some name)
     (db_beautySalons db) \<and>
   fst (generateHTML slugify db) =
   (counted db)\<lparr>db_beautySalons :=
      map (fillStateName (citiesMapOf db) (db_cities (counted db)) (statesMapOf db)
             (db_states (counted db)))
        (db_beautySalons (counted db))\<rparr>"
proof (intro conjI allI impI)
  show "db_cities (fst (projection slugify citiesMap statesMap db)) = db_cities db"
    by (simp add: projection_def Let_def)
  show "db_states (fst (projection slugify citiesMap statesMap db)) = db_states db"
    by (simp add: projection_def Let_def)
  show "db_categories (fst (projection slugify citiesMap statesMap db)) = db_categories db"
    by (simp add: projection_def Let_def)
  show "map (\<lambda>salon. salon\<lparr>bs_state_name := None\<rparr>)
          (db_beautySalons (fst (projection slugify citiesMap statesMap db))) =
        map (\<lambda>salon. salon\<lparr>bs_state_name := None\<rparr>) (db_beautySalons db)"
    by (simp add: projection_salons comp_def stateSlug_writes)
  show "map bs_state_name (db_beautySalons (fst (projection slugify citiesMap statesMap db))) =
        map (\<lambda>salon. case missingStateName citiesMap (db_cities db) statesMap (db_states db)
                             salon of
                        None \<Rightarrow> bs_state_name salon
                      | Some name \<Rightarrow> Some name)
          (db_beautySalons db)"
    by (simp add: projection_salons comp_def stateSlug_fill fillStateName_def
             split: option.splits)
  show "fst (generateHTML slugify db) =
        (counted db)\<lparr>db_beautySalons :=
           map (fillStateName (citiesMapOf db) (db_cities (counted db)) (statesMapOf db)
                  (db_states (counted db)))
             (db_beautySalons (counted db))\<rparr>"
    by (simp add: generateHTML_def projection_def Let_def processSalon_fst stateSlug_fill
             comp_def split: prod.splits)
next
  fix i
  assume "i < length (db_beautySalons db)" "truthy (bs_state_name (db_beautySalons db ! i))"
  then show "db_beautySalons (fst (projection slugify citiesMap statesMap db)) ! i =
             db_beautySalons db ! i"
    by (simp add: projection_salons stateSlug_truthy)
qed

text \<open>
  The first Business has its state name from its city and stays as it is; the Business
  of the second example has none, and gets the name Illinois of the State of its city.
\<close>

theorem projection_writes_witness:
  "0 < length (db_beautySalons (counted exampleCityWins)) \<and>
   truthy (bs_state_name (db_beautySalons (counted exampleCityWins) ! 0)) \<and>
   db_beautySalons (fst (projection (slugifyLower charMapAscii) (citiesMapOf exampleCityWins)
      (statesMapOf exampleCityWins) (counted exampleCityWins))) ! 0 =
   db_beautySalons (counted exampleCityWins) ! 0 \<and>
   map bs_state_name (db_beautySalons (counted exampleMissingStateName)) = [None] \<and>
   map bs_state_name
     (db_beautySalons (fst (generateHTML (slugifyLower charMapAscii) exampleMissingStateName))) =
   [Some ''Illinois'']"
proof -
  have h: "0 < length (db_beautySalons (counted exampleCityWins))"
    "truthy (bs_state_name (db_beautySalons (counted exampleCityWins) ! 0))"
    by code_simp+
  have m: "map bs_state_name (db_beautySalons (counted exampleMissingStateName)) = [None]"
    "map bs_state_name
       (map (fillStateName (citiesMapOf exampleMissingStateName)
               (db_cities (counted exampleMissingStateName))
               (statesMapOf exampleMissingStateName)
               (db_states (counted exampleMissingStateName)))
          (db_beautySalons (counted exampleMissingStateName))) = [Some ''Illinois'']"
    by code_simp+
  have "fst (generateHTML (slugifyLower charMapAscii) exampleMissingStateName) =
        (counted exampleMissingStateName)\<lparr>db_beautySalons :=
           map (fillStateName (citiesMapOf exampleMissingStateName)
                  (db_cities (counted exampleMissingStateName))
                  (statesMapOf exampleMissingStateName)
                  (db_states (counted exampleMissingStateName)))
             (db_beautySalons (counted exampleMissingStateName))\<rparr>"
    using projection_writes_only_state_name[of "slugifyLower charMapAscii" _ _
        exampleMissingStateName] by blast
  then have "map bs_state_name
       (db_beautySalons (fst (generateHTML (slugifyLower charMapAscii) exampleMissingStateName))) =
     [Some ''Illinois'']"
    using m(2) by simp
  with h m(1) projection_writes_only_state_name[of "slugifyLower charMapAscii"
      "citiesMapOf exampleCityWins" "statesMapOf exampleCityWins" "counted exampleCityWins"]
  show ?thesis by blast
qed

text \<open>
  Claim C6 as stated fails: line 398 writes \<^verbatim>\<open>salon.state_name\<close> on the raw record.
  The Business of the example leaves the counting pass with the \<^verbatim>\<open>state_id\<close> ZZ and no
  state name, and leaves the projection build with the state name Illinois of its city.
\<close>

theorem projection_mutates_counterexample:
  "db_beautySalons (fst (projection (slugifyLower charMapAscii)
      (citiesMapOf exampleMissingStateName) (statesMapOf exampleMissingStateName)
      (counted exampleMissingStateName))) \<noteq>
   db_beautySalons (counted exampleMissingStateName)"
  by code_simp

text \<open>
  In the pipeline the collections that the resolution and the counting produced reach
  the end of the run with their counters as counted, whatever \<^verbatim>\<open>slugify\<close> does.
\<close>

lemma generateHTML_collections:
  "db_cities (fst (generateHTML slugify db)) = db_cities (counted db) \<and>
   db_states (fst (generateHTML slugify db)) = db_states (counted db) \<and>
   db_categories (fst (generateHTML slugify db)) = db_categories (counted db)"
  by (simp add: generateHTML_def projection_def Let_def split: prod.splits)

section \<open>Company sitemap shards\<close>

lemma numberToString_1: "numberToString (Suc 0) = ''1''"
  by simp

lemma numberToString_2: "numberToString (Suc (Suc 0)) = ''2''"
  by simp

text \<open>The files of 200 and of 201 salons.\<close>

lemma companySitemaps_200:
  assumes "length salons = 200"
  shows "companySitemaps salons = [(''companies-sitemap1.xml'', sitemapXml salons)]"
proof -
  have "companySitemapsFrom salons 200 = []"
    using assms by (subst companySitemapsFrom.simps) simp
  moreover have "slice salons 0 200 = salons"
    using assms by (simp add: slice_def)
  ultimately have "companySitemapsFrom salons 0 =
                   [(''companies-sitemap1.xml'', sitemapXml salons)]"
    using assms
    by (subst companySitemapsFrom.simps)
       (simp add: Let_def del: numberToString.simps add: numberToString_1)
  then show ?thesis by (simp add: companySitemaps_def)
qed

lemma companySitemaps_201:
  assumes "length salons = 201"
  shows "companySitemaps salons =
         [(''companies-sitemap1.xml'', sitemapXml (take 200 salons)),
          (''companies-sitemap2.xml'', sitemapXml (drop 200 salons))]"
proof -
  have a: "companySitemapsFrom salons 400 = []"
    using assms by (subst companySitemapsFrom.simps) simp
  have "slice salons 200 400 = drop 200 salons"
    using assms by (simp add: slice_def)
  then have b: "companySitemapsFrom salons 200 =
                [(''companies-sitemap2.xml'', sitemapXml (drop 200 salons))]"
    using assms a
    by (subst companySitemapsFrom.simps)
       (simp add: Let_def del: numberToString.simps add: numberToString_2)
  have "slice salons 0 200 = take 200 salons" by (simp add: slice_def)
  then show ?thesis
    unfolding companySitemaps_def
    using assms b
    by (subst companySitemapsFrom.simps)
       (simp add: Let_def del: numberToString.simps add: numberToString_1)
qed

text \<open>
  The \<^verbatim>\<open><url>\<close> tags of a written file: one for each salon of the chunk, when no slug
  holds the character \<^verbatim>\<open><\<close>.
\<close>

lemma occurrences_skip:
  assumes "CHR ''<'' \<notin> set A"
  shows "occurrences ''<url>'' (A @ ys) = occurrences ''<url>'' ys"
  using assms by (induction A) auto

lemma occurrences_header:
  "occurrences ''<url>''
     (''<?xml version=\"1.0\" encoding=\"UTF-8\"?>'' @ nl @
      ''<urlset xmlns=\"http://www.sitemaps.org/schemas/sitemap/0.9\">'' @ nl @ ys) =
   occurrences ''<url>'' ys"
  by (simp add: nl_def)

lemma occurrences_entry_head:
  "occurrences ''<url>'' (''  <url>'' @ nl @ ''    <loc>'' @ baseUrl @ ''/companies/'' @ ys) =
   Suc (occurrences ''<url>'' ys)"
  by (simp add: nl_def baseUrl_def)

lemma occurrences_entry_tail:
  "occurrences ''<url>'' (''/</loc>'' @ nl @ ''    <changefreq>monthly</changefreq>'' @ nl @
     ''    <priority>0.8</priority>'' @ nl @ ''  </url>'' @ nl @ ys) =
   occurrences ''<url>'' ys"
  by (simp add: nl_def)

lemma occurrences_urlEntry:
  assumes "CHR ''<'' \<notin> set (ps_slug salon)"
  shows "occurrences ''<url>'' (urlEntry salon @ ys) = Suc (occurrences ''<url>'' ys)"
proof -
  have "urlEntry salon @ ys =
        ''  <url>'' @ nl @ ''    <loc>'' @ baseUrl @ ''/companies/'' @
        (ps_slug salon @
         (''/</loc>'' @ nl @ ''    <changefreq>monthly</changefreq>'' @ nl @
          ''    <priority>0.8</priority>'' @ nl @ ''  </url>'' @ nl @ ys))"
    by (simp add: urlEntry_def)
  then show ?thesis
    by (simp only: occurrences_entry_head occurrences_skip[OF assms] occurrences_entry_tail)
qed

lemma occurrences_entries:
  assumes "\<forall>salon\<in>set chunk. CHR ''<'' \<notin> set (ps_slug salon)"
  shows "occurrences ''<url>'' (concat (urlEntries chunk) @ ys) =
         length chunk + occurrences ''<url>'' ys"
  using assms
proof (induction chunk)
  case Nil
  show ?case by (simp add: urlEntries_def)
next
  case (Cons s chunk)
  then have "CHR ''<'' \<notin> set (ps_slug s)" by simp
  from occurrences_urlEntry[OF this] Cons show ?case
    by (simp add: urlEntries_def)
qed

lemma occurrences_sitemapXml:
  assumes "\<forall>salon\<in>set chunk. CHR ''<'' \<notin> set (ps_slug salon)"
  shows "occurrences ''<url>'' (sitemapXml chunk) = length chunk"
proof -
  have "occurrences ''<url>'' (sitemapXml chunk) =
        occurrences ''<url>'' (concat (urlEntries chunk) @ ''</urlset>'')"
    unfolding sitemapXml_def by (simp only: occurrences_header append_assoc)
  also have "\<dots> = length chunk + occurrences ''<url>'' ''</urlset>''"
    by (rule occurrences_entries[OF assms])
  finally show ?thesis by simp
qed

text \<open>A slug holds no \<^verbatim>\<open><\<close>: \<^verbatim>\<open>slugify\<close> removes the character.\<close>

lemma not_allowed_lt: "\<not> allowedChar CHR ''<''"
  by (simp add: allowedChar_def isWordChar_def isSpace_def)

lemma appendChar_allowed: "c \<in> set (appendChar charMap ch) \<Longrightarrow> allowedChar c"
  by (simp add: appendChar_def Let_def)

lemma trim_subset: "set (trim s) \<subseteq> set s"
proof -
  have "set (trim s) \<subseteq> set (dropWhile isSpace s)"
    unfolding trim_def using set_dropWhileD[of _ isSpace "rev (dropWhile isSpace s)"] by auto
  also have "\<dots> \<subseteq> set s" using set_dropWhileD[of _ isSpace s] by auto
  finally show ?thesis .
qed

lemma collapseSpaces_subset: "set (collapseSpaces s) \<subseteq> insert CHR ''-'' (set s)"
proof (induction s rule: collapseSpaces.induct)
  case 1
  show ?case by simp
next
  case (2 c cs)
  show ?case
  proof (cases "isSpace c")
    case True
    with 2(1) have "set (collapseSpaces (dropWhile isSpace cs)) \<subseteq> insert CHR ''-'' (set (dropWhile isSpace cs))"
      by simp
    moreover have "set (dropWhile isSpace cs) \<subseteq> set cs" using set_dropWhileD[of _ isSpace cs] by auto
    ultimately show ?thesis using True by auto
  next
    case False
    with 2(2) show ?thesis by auto
  qed
qed

lemma lower_lt:
  assumes "CHR ''<'' \<in> set (toLowerCase s)"
  shows "CHR ''<'' \<in> set s"
proof -
  let ?t = "map_of (zip ''ABCDEFGHIJKLMNOPQRSTUVWXYZ'' ''abcdefghijklmnopqrstuvwxyz'')"
  from assms obtain c where c: "c \<in> set s" "(case ?t c of None \<Rightarrow> c | Some l \<Rightarrow> l) = CHR ''<''"
    by (auto simp: toLowerCase_def)
  show ?thesis
  proof (cases "?t c")
    case None
    with c show ?thesis by simp
  next
    case (Some l)
    then have "(c, l) \<in> set (zip ''ABCDEFGHIJKLMNOPQRSTUVWXYZ'' ''abcdefghijklmnopqrstuvwxyz'')"
      by (rule map_of_SomeD)
    then have "l \<in> set ''abcdefghijklmnopqrstuvwxyz''" by (rule set_zip_rightD)
    moreover have "l = CHR ''<''" using c(2) Some by simp
    ultimately show ?thesis by simp
  qed
qed

lemma slugifyLower_no_lt: "CHR ''<'' \<notin> set (slugifyLower charMap s)"
proof
  assume "CHR ''<'' \<in> set (slugifyLower charMap s)"
  then have "CHR ''<'' \<in> set (collapseSpaces (trim (concat (map (appendChar charMap) s))))"
    unfolding slugifyLower_def by (rule lower_lt)
  then have "CHR ''<'' \<in> set (trim (concat (map (appendChar charMap) s)))"
    using collapseSpaces_subset by fastforce
  then have "CHR ''<'' \<in> set (concat (map (appendChar charMap) s))"
    using trim_subset by blast
  then have "allowedChar CHR ''<''"
    by (auto dest: appendChar_allowed)
  then show False by (simp add: not_allowed_lt)
qed

lemma sitemapFiles_eq:
  "sitemapFiles slugify db =
     companySitemaps
       (map (\<lambda>s. snd (processSalon slugify (citiesMapOf db) (db_cities (counted db))
                        (statesMapOf db) (db_states (counted db)) s))
          (db_beautySalons (counted db)))"
  by (simp add: sitemapFiles_def generateHTML_def projection_def Let_def comp_def
           split: prod.splits)

lemma counted_length: "length (db_beautySalons (counted db)) = length (db_beautySalons db)"
  by (simp add: counted_fields(1) resolved_fields(4))

lemma processed_no_lt:
  "\<forall>p\<in>set (map (\<lambda>s. snd (processSalon (slugifyLower charMap) cm cs sm sts s)) salons).
     CHR ''<'' \<notin> set (ps_slug p)"
  by (simp add: processSalon_slug slugifyLower_no_lt)

lemma all_take: "\<forall>p\<in>set xs. P p \<Longrightarrow> \<forall>p\<in>set (take n xs). P p"
  by (auto dest: in_set_takeD)

lemma all_drop: "\<forall>p\<in>set xs. P p \<Longrightarrow> \<forall>p\<in>set (drop n xs). P p"
  by (auto dest: in_set_dropD)

text \<open>
  Claim C8. An input of exactly 200 Businesses produces exactly one company sitemap
  shard, \<^verbatim>\<open>companies-sitemap1.xml\<close>, and the file contains exactly 200 \<^verbatim>\<open><url>\<close>
  entries; a new shard starts only after 200 records: with one more Business there are
  two shards, the first with 200 entries and the second with one.
\<close>

theorem one_shard_for_200:
  assumes "length (db_beautySalons db) = 200"
  shows "map fst (sitemapFiles (slugifyLower charMap) db) = [''companies-sitemap1.xml''] \<and>
         map (\<lambda>file. occurrences ''<url>'' (snd file))
           (sitemapFiles (slugifyLower charMap) db) = [200] \<and>
         map fst (sitemapFiles (slugifyLower charMap)
                    (db\<lparr>db_beautySalons := db_beautySalons db @ [salon]\<rparr>)) =
           [''companies-sitemap1.xml'', ''companies-sitemap2.xml''] \<and>
         map (\<lambda>file. occurrences ''<url>'' (snd file))
           (sitemapFiles (slugifyLower charMap)
              (db\<lparr>db_beautySalons := db_beautySalons db @ [salon]\<rparr>)) = [200, 1]"
proof -
  let ?f = "slugifyLower charMap"
  let ?ps = "\<lambda>d. map (\<lambda>s. snd (processSalon ?f (citiesMapOf d) (db_cities (counted d))
                                   (statesMapOf d) (db_states (counted d)) s))
                        (db_beautySalons (counted d))"
  let ?db1 = "db\<lparr>db_beautySalons := db_beautySalons db @ [salon]\<rparr>"
  have l0: "length (?ps db) = 200" using assms by (simp add: counted_length)
  have l1: "length (?ps ?db1) = 201" using assms by (simp add: counted_length)
  have n0: "\<forall>p\<in>set (?ps db). CHR ''<'' \<notin> set (ps_slug p)" by (rule processed_no_lt)
  have n1: "\<forall>p\<in>set (?ps ?db1). CHR ''<'' \<notin> set (ps_slug p)" by (rule processed_no_lt)
  have f0: "sitemapFiles ?f db = [(''companies-sitemap1.xml'', sitemapXml (?ps db))]"
    unfolding sitemapFiles_eq by (rule companySitemaps_200[OF l0])
  have f1: "sitemapFiles ?f ?db1 =
            [(''companies-sitemap1.xml'', sitemapXml (take 200 (?ps ?db1))),
             (''companies-sitemap2.xml'', sitemapXml (drop 200 (?ps ?db1)))]"
    unfolding sitemapFiles_eq by (rule companySitemaps_201[OF l1])
  have o0: "occurrences ''<url>'' (sitemapXml (?ps db)) = 200"
    using occurrences_sitemapXml[OF n0] l0 by simp
  have o1: "occurrences ''<url>'' (sitemapXml (take 200 (?ps ?db1))) = 200"
    using occurrences_sitemapXml[OF all_take[OF n1, of 200]] l1 by simp
  have o2: "occurrences ''<url>'' (sitemapXml (drop 200 (?ps ?db1))) = 1"
    using occurrences_sitemapXml[OF all_drop[OF n1, of 200]] l1 by simp
  show ?thesis
    by (simp only: f0 f1 o0 o1 o2 list.map fst_conv snd_conv simp_thms)
qed

text \<open>Two hundred Businesses, and the same with a 201st.\<close>

theorem one_shard_for_200_witness:
  "length (db_beautySalons example200) = 200 \<and>
   map fst (sitemapFiles (slugifyLower charMapAscii) example200) = [''companies-sitemap1.xml''] \<and>
   map (\<lambda>file. occurrences ''<url>'' (snd file))
     (sitemapFiles (slugifyLower charMapAscii) example200) = [200] \<and>
   map (\<lambda>file. occurrences ''<url>'' (snd file))
     (sitemapFiles (slugifyLower charMapAscii)
        (example200\<lparr>db_beautySalons :=
           db_beautySalons example200 @ [blankSalon ''2'' ''Spa'']\<rparr>)) = [200, 1]"
proof -
  have h: "length (db_beautySalons example200) = 200" by (simp add: example200_def)
  from one_shard_for_200[OF h, of charMapAscii "blankSalon ''2'' ''Spa''"] h
  show ?thesis by simp
qed

end
